theory Spec2Isabelle
  imports Main
begin

section \<open>Data model\<close>

text \<open>
  References (\<open>Ref<T>\<close>), domains and class identifiers are branded strings in the
  source. A value that may be \<open>undefined\<close> is an \<open>option\<close>.
\<close>

type_synonym ref = string
type_synonym domain = string

datatype js_error = TypeError | Error string

text \<open>
  \<open>DocumentUpdate\<close>: the fields of an update's \<open>operations\<close> that the server reads
  (\<open>attachedTo\<close>, \<open>attachedToClass\<close>, \<open>collection\<close>, \<open>space\<close>) or writes (\<open>$inc\<close>,
  \<open>space\<close>).
\<close>

record ops =
  op_attachedTo :: "ref option"
  op_attachedToClass :: "ref option"
  op_collection :: "string option"
  op_space :: "ref option"
  op_inc :: "(string \<times> int) list"

text \<open>
  \<open>DocumentQuery\<close>: the queries the server builds itself (\<open>{ _id }\<close>,
  \<open>{ attachedTo }\<close>, \<open>{ attachedTo, space }\<close>), and a client's own query, kept opaque.
\<close>

datatype query =
    ById ref
  | ByAttachedTo ref
  | ByAttachedToSpace ref ref
  | ClientQuery string

text \<open>The fields every \<open>Tx\<close> / \<open>TxCUD\<close> carries.\<close>

record txhdr =
  tx_space :: ref
  modifiedBy :: ref
  modifiedOn :: int
  objectId :: ref
  objectClass :: ref
  objectSpace :: ref

text \<open>
  The transaction union, one constructor per class the server tells apart;
  \<open>TxOther c\<close> is a transaction of any other class \<open>c\<close>. A \<open>TxCollectionCUD\<close> carries
  its \<open>collection\<close> and the nested \<open>tx\<close>; a \<open>TxApplyIf\<close> its \<open>scope\<close>, \<open>match\<close>,
  \<open>notMatch\<close> and \<open>txes\<close>.
\<close>

datatype tx =
    TxCreateDoc txhdr
  | TxUpdateDoc txhdr ops
  | TxRemoveDoc txhdr
  | TxMixin txhdr ref ops
  | TxCollectionCUD txhdr string tx
  | TxApplyIf txhdr string "(ref \<times> query) list" "(ref \<times> query) list" "tx list"
  | TxOther ref txhdr

definition core_class_TxCreateDoc :: ref where
  "core_class_TxCreateDoc = ''core:class:TxCreateDoc''"

definition core_class_TxUpdateDoc :: ref where
  "core_class_TxUpdateDoc = ''core:class:TxUpdateDoc''"

definition core_class_TxRemoveDoc :: ref where
  "core_class_TxRemoveDoc = ''core:class:TxRemoveDoc''"

definition core_class_TxMixin :: ref where
  "core_class_TxMixin = ''core:class:TxMixin''"

definition core_class_TxCollectionCUD :: ref where
  "core_class_TxCollectionCUD = ''core:class:TxCollectionCUD''"

definition core_class_TxApplyIf :: ref where
  "core_class_TxApplyIf = ''core:class:TxApplyIf''"

definition core_class_TxCUD :: ref where
  "core_class_TxCUD = ''core:class:TxCUD''"

lemmas core_class_defs =
  core_class_TxCreateDoc_def core_class_TxUpdateDoc_def core_class_TxRemoveDoc_def
  core_class_TxMixin_def core_class_TxCollectionCUD_def core_class_TxApplyIf_def
  core_class_TxCUD_def

fun tx_class :: "tx \<Rightarrow> ref" where
  "tx_class (TxCreateDoc h) = core_class_TxCreateDoc"
| "tx_class (TxUpdateDoc h operations) = core_class_TxUpdateDoc"
| "tx_class (TxRemoveDoc h) = core_class_TxRemoveDoc"
| "tx_class (TxMixin h mixin attributes) = core_class_TxMixin"
| "tx_class (TxCollectionCUD h collection t) = core_class_TxCollectionCUD"
| "tx_class (TxApplyIf h scope match notMatch txes) = core_class_TxApplyIf"
| "tx_class (TxOther c h) = c"

fun hdr :: "tx \<Rightarrow> txhdr" where
  "hdr (TxCreateDoc h) = h"
| "hdr (TxUpdateDoc h operations) = h"
| "hdr (TxRemoveDoc h) = h"
| "hdr (TxMixin h mixin attributes) = h"
| "hdr (TxCollectionCUD h collection t) = h"
| "hdr (TxApplyIf h scope match notMatch txes) = h"
| "hdr (TxOther c h) = h"

section \<open>Model/hash ledger (storage.ts: setModel, addModelTx, loadModel)\<close>

text \<open>
  \<open>this.model\<close> and \<open>this.hashes\<close>. SHA-1 (hex digest) and \<open>JSON.stringify\<close> are
  parameters \<open>sha1\<close> and \<open>stringify\<close>; two \<open>h.update\<close> calls hash the concatenation.
\<close>

record ledger =
  model :: "tx list"
  hashes :: "string list"

text \<open>The \<open>map\<close> of \<open>setModel\<close>, with its running \<open>prev\<close>.\<close>

fun hashChain :: "(string \<Rightarrow> string) \<Rightarrow> (tx \<Rightarrow> string) \<Rightarrow> string \<Rightarrow> tx list \<Rightarrow> string list" where
  "hashChain sha1 stringify prev [] = []"
| "hashChain sha1 stringify prev (it # rest) =
     (let h = sha1 (prev @ stringify it) in h # hashChain sha1 stringify h rest)"

definition setModel :: "(string \<Rightarrow> string) \<Rightarrow> (tx \<Rightarrow> string) \<Rightarrow> ledger \<Rightarrow> tx list \<Rightarrow> ledger" where
  "setModel sha1 stringify st m = st\<lparr>hashes := hashChain sha1 stringify [] m\<rparr>"

text \<open>The constructor stores \<open>model\<close> and calls \<open>this.setModel(model)\<close>.\<close>

definition newStorage :: "(string \<Rightarrow> string) \<Rightarrow> (tx \<Rightarrow> string) \<Rightarrow> tx list \<Rightarrow> ledger" where
  "newStorage sha1 stringify m = setModel sha1 stringify \<lparr>model = m, hashes = []\<rparr> m"

text \<open>\<open>this.hashes[this.hashes.length - 1]\<close>: \<open>undefined\<close> on an empty array.\<close>

definition lastHash :: "string list \<Rightarrow> string option" where
  "lastHash hs = (if hs = [] then None else Some (last hs))"

text \<open>
  \<open>addModelTx\<close> returns the ledger it leaves behind and the exception it throws, if any:
  \<open>this.model.push(tx)\<close> comes first, and \<open>h.update(undefined)\<close> throws a \<open>TypeError\<close>
  (Node's \<open>Hash.update\<close> accepts a string or a buffer only).
\<close>

definition addModelTx :: "(string \<Rightarrow> string) \<Rightarrow> (tx \<Rightarrow> string) \<Rightarrow> ledger \<Rightarrow> tx \<Rightarrow> ledger \<times> js_error option" where
  "addModelTx sha1 stringify st t =
     (let st1 = st\<lparr>model := model st @ [t]\<rparr> in
      case lastHash (hashes st1) of
        None \<Rightarrow> (st1, Some TypeError)
      | Some prev \<Rightarrow> (st1\<lparr>hashes := hashes st1 @ [sha1 (prev @ stringify t)]\<rparr>, None))"

text \<open>\<open>Array.prototype.indexOf\<close>: the first index holding the value, \<open>-1\<close> when none does.\<close>

fun indexOfFrom :: "int \<Rightarrow> 'a list \<Rightarrow> 'a \<Rightarrow> int" where
  "indexOfFrom i [] x = -1"
| "indexOfFrom i (y # ys) x = (if y = x then i else indexOfFrom (i + 1) ys x)"

definition indexOf :: "'a list \<Rightarrow> 'a \<Rightarrow> int" where
  "indexOf xs x = indexOfFrom 0 xs x"

datatype loadModelResult =
    TxList "tx list"
  | LoadModelResponse (full: bool) (hash: "string option") (transactions: "tx list")

definition loadModel :: "ledger \<Rightarrow> int \<Rightarrow> string option \<Rightarrow> loadModelResult" where
  "loadModel st lastModelTx hash_arg =
     (case hash_arg of
        Some h \<Rightarrow>
          (let pos = indexOf (hashes st) h in
           if pos \<ge> 0
           then LoadModelResponse False (lastHash (hashes st)) (drop (nat (pos + 1)) (model st))
           else LoadModelResponse True (lastHash (hashes st)) (model st))
      | None \<Rightarrow> TxList (filter (\<lambda>it. modifiedOn (hdr it) > lastModelTx) (model st)))"

section \<open>Documents, the class hierarchy and the adapters\<close>

text \<open>
  A \<open>Doc\<close>; the three \<open>AttachedDoc\<close> fields are read only after a cast guarded by
  \<open>isDerived(_class, AttachedDoc)\<close>.
\<close>

record doc =
  doc_id :: ref
  doc_class :: ref
  doc_space :: ref
  doc_modifiedBy :: ref
  attachedTo :: ref
  attachedToClass :: ref
  collection :: string
  doc_mixins :: "ref list"

text \<open>An attribute with its \<open>type._class\<close> and, for a collection type, \<open>type.of\<close>.\<close>

record attribute =
  attr_name :: string
  attr_type_class :: ref
  attr_type_of :: ref

datatype classifierKind = CLASS | INTERFACE | MIXIN

type_synonym findAllFn = "ref \<Rightarrow> query \<Rightarrow> nat option \<Rightarrow> js_error + doc list"

text \<open>
  A class object: its kind, its own \<open>domain\<close>, and the \<open>collectDocs\<close> resource of its
  \<open>ObjectDDParticipant\<close> mixin (\<open>None\<close> when the class does not have the mixin).
\<close>

record classifier =
  cls_kind :: classifierKind
  cls_domain :: "domain option"
  cls_collectDocs :: "string option"

text \<open>
  The \<open>Hierarchy\<close> is a collaborator outside this source: each method the server calls
  is a parameter. \<open>getClass\<close> is \<open>None\<close> where the method throws (\<open>getParentClass\<close>
  catches it).
\<close>

record hierarchy =
  isDerived :: "ref \<Rightarrow> ref \<Rightarrow> bool"
  getDomain :: "ref \<Rightarrow> domain"
  getBaseClass :: "ref \<Rightarrow> ref"
  findAttribute :: "ref \<Rightarrow> string \<Rightarrow> attribute option"
  getAllAttributes :: "ref \<Rightarrow> ref option \<Rightarrow> (string \<times> attribute) list"
  getAncestors :: "ref \<Rightarrow> ref list"
  getDescendants :: "ref \<Rightarrow> ref list"
  getClass :: "ref \<Rightarrow> classifier option"
  hasMixin :: "doc \<Rightarrow> ref \<Rightarrow> bool"

datatype txresult = AdapterResult string | ApplyIfResult bool

text \<open>A \<open>DbAdapter\<close> over a store of type \<open>'db\<close>: the three methods the server calls.\<close>

record 'db adapter =
  ad_load :: "'db \<Rightarrow> domain \<Rightarrow> ref list \<Rightarrow> doc list"
  ad_tx :: "'db \<Rightarrow> tx list \<Rightarrow> 'db \<times> txresult list"
  ad_findAll :: "'db \<Rightarrow> ref \<Rightarrow> query \<Rightarrow> nat option \<Rightarrow> doc list"

text \<open>
  What a \<open>TServerStorage\<close> is constructed with (\<open>_domains\<close>, \<open>defaultAdapter\<close>,
  \<open>adapters\<close>, \<open>hierarchy\<close>, \<open>triggers\<close>), the platform's \<open>getResource\<close>, and the reading of
  \<open>Date.now()\<close>.
\<close>

record 'db env =
  hier :: hierarchy
  domains :: "domain \<Rightarrow> string option"
  defaultAdapter :: string
  adapters :: "string \<Rightarrow> 'db adapter option"
  getResource :: "string \<Rightarrow> findAllFn \<Rightarrow> doc \<Rightarrow> js_error + doc list"
  triggers_apply :: "findAllFn \<Rightarrow> (ref \<Rightarrow> doc option) \<Rightarrow> tx list \<Rightarrow> js_error + tx list"
  Date_now :: int

definition core_class_Collection :: ref where
  "core_class_Collection = ''core:class:Collection''"

definition core_class_AttachedDoc :: ref where
  "core_class_AttachedDoc = ''core:class:AttachedDoc''"

definition core_space_DerivedTx :: ref where
  "core_space_DerivedTx = ''core:space:DerivedTx''"

definition DOMAIN_MODEL :: domain where
  "DOMAIN_MODEL = ''model''"

text \<open>Sequencing of calls that may throw.\<close>

definition bindE :: "js_error + 'a \<Rightarrow> ('a \<Rightarrow> js_error + 'b) \<Rightarrow> js_error + 'b" where
  "bindE m f = (case m of Inl e \<Rightarrow> Inl e | Inr x \<Rightarrow> f x)"

text \<open>\<open>xs[0]\<close> of a find result.\<close>

definition first :: "'a list \<Rightarrow> 'a option" where
  "first xs = (case xs of [] \<Rightarrow> None | x # rest \<Rightarrow> Some x)"

text \<open>
  Modelled from the spec: \<open>TxProcessor.extractTx\<close> is not in this source. A
  \<open>TxCollectionCUD\<close> is "a CUD operation nested inside"; extraction returns the nested
  transaction, and any other transaction itself.
\<close>

fun extractTx :: "tx \<Rightarrow> tx" where
  "extractTx (TxCollectionCUD h c t) = t"
| "extractTx t = t"

text \<open>
  Modelled from the spec: \<open>TxFactory\<close> is not in this source. A factory made with
  \<open>new TxFactory(account, true)\<close> stamps each transaction with the derived-transaction
  space, the account and \<open>Date.now()\<close>, and fills \<open>objectId\<close>, \<open>objectClass\<close> and
  \<open>objectSpace\<close> from its arguments.
\<close>

definition factoryHdr :: "ref \<Rightarrow> int \<Rightarrow> ref \<Rightarrow> ref \<Rightarrow> ref \<Rightarrow> txhdr" where
  "factoryHdr account now oid ocls ospace =
     \<lparr>tx_space = core_space_DerivedTx, modifiedBy = account, modifiedOn = now,
      objectId = oid, objectClass = ocls, objectSpace = ospace\<rparr>"

definition createTxRemoveDoc :: "ref \<Rightarrow> int \<Rightarrow> ref \<Rightarrow> ref \<Rightarrow> ref \<Rightarrow> tx" where
  "createTxRemoveDoc account now cls space oid = TxRemoveDoc (factoryHdr account now oid cls space)"

definition createTxCollectionCUD :: "ref \<Rightarrow> int \<Rightarrow> ref \<Rightarrow> ref \<Rightarrow> ref \<Rightarrow> string \<Rightarrow> tx \<Rightarrow> tx" where
  "createTxCollectionCUD account now cls oid space coll t =
     TxCollectionCUD (factoryHdr account now oid cls space) coll t"

definition createTxUpdateDoc :: "ref \<Rightarrow> int \<Rightarrow> ref \<Rightarrow> ref \<Rightarrow> ref \<Rightarrow> ops \<Rightarrow> tx" where
  "createTxUpdateDoc account now cls space oid operations =
     TxUpdateDoc (factoryHdr account now oid cls space) operations"

definition createTxMixin :: "ref \<Rightarrow> int \<Rightarrow> ref \<Rightarrow> ref \<Rightarrow> ref \<Rightarrow> ref \<Rightarrow> ops \<Rightarrow> tx" where
  "createTxMixin account now oid ocls ospace mixin attributes =
     TxMixin (factoryHdr account now oid ocls ospace) mixin attributes"

section \<open>Adapters and findAll (storage.ts: getAdapter, findAll)\<close>

definition getAdapter :: "'db env \<Rightarrow> domain \<Rightarrow> js_error + 'db adapter" where
  "getAdapter env d =
     (let name = (case domains env d of Some n \<Rightarrow> n | None \<Rightarrow> defaultAdapter env) in
      case adapters env name of
        None \<Rightarrow> Inl (Error (''adapter not provided: '' @ name))
      | Some a \<Rightarrow> Inr a)"

text \<open>
  \<open>findAll\<close> for a query without \<open>$search\<close> (the full-text path is another collaborator):
  the adapter of the class's domain answers. The exception of the model is the one of
  \<open>getAdapter\<close>: every class is taken to have a domain (\<open>hierarchy.getDomain\<close> is total)
  and the adapter's \<open>findAll\<close> to answer. Where a statement is about a \<open>findAll\<close> that
  throws, \<open>findAll\<close> is a parameter of the function concerned.
\<close>

definition findAll :: "'db env \<Rightarrow> 'db \<Rightarrow> findAllFn" where
  "findAll env db clazz q limit =
     bindE (getAdapter env (getDomain (hier env) clazz))
       (\<lambda>a. Inr (ad_findAll a db clazz q limit))"

section \<open>Transaction router (storage.ts: routeTx)\<close>

text \<open>The calls the router makes on its collaborators, in order.\<close>

datatype call =
    AdapterLoad domain "ref list"
  | AdapterTx domain "tx list"
  | LiveQueryTx tx
  | CtxError tx

record 'db world =
  w_db :: 'db
  removedMap :: "ref \<Rightarrow> doc option"
  calls :: "call list"

text \<open>\<open>for (const ddoc of toDeleteDocs) removedDocs.set(ddoc._id, ddoc)\<close>\<close>

fun setAll :: "(ref \<Rightarrow> doc option) \<Rightarrow> doc list \<Rightarrow> (ref \<Rightarrow> doc option)" where
  "setAll m [] = m"
| "setAll m (d # ds) = setAll (m(doc_id d \<mapsto> d)) ds"

text \<open>
  \<open>processPart\<close>: the world after it, and either the exception of \<open>getAdapter\<close> or the
  new \<open>result\<close> and \<open>part\<close>.
\<close>

definition processPart ::
  "'db env \<Rightarrow> 'db world \<Rightarrow> tx list \<Rightarrow> domain \<Rightarrow> txresult list
     \<Rightarrow> 'db world \<times> (js_error + txresult list \<times> tx list)" where
  "processPart env w part lastDomain result =
     (if part \<noteq> [] then
        (case getAdapter env lastDomain of
           Inl e \<Rightarrow> (w, Inl e)
         | Inr a \<Rightarrow>
            (let toDelete = map (\<lambda>it. objectId (hdr it))
                              (filter (\<lambda>it. tx_class it = core_class_TxRemoveDoc) part);
                 w1 = (if toDelete \<noteq> [] then
                         w\<lparr>removedMap := setAll (removedMap w) (ad_load a (w_db w) lastDomain toDelete),
                           calls := calls w @ [AdapterLoad lastDomain toDelete]\<rparr>
                       else w);
                 r = ad_tx a (w_db w1) part;
                 w2 = w1\<lparr>w_db := fst r,
                         calls := calls w1 @ [AdapterTx lastDomain part] @ map LiveQueryTx part\<rparr>
             in (w2, Inr (result @ snd r, []))))
      else (w, Inr (result, part)))"

text \<open>
  The \<open>for\<close> loop of \<open>routeTx\<close> with its variables \<open>part\<close>, \<open>lastDomain\<close> (read only
  when \<open>part\<close> is not empty) and \<open>result\<close>, then the last \<open>processPart\<close>.
\<close>

fun routeLoop ::
  "'db env \<Rightarrow> 'db world \<Rightarrow> tx list \<Rightarrow> domain \<Rightarrow> txresult list \<Rightarrow> tx list
     \<Rightarrow> 'db world \<times> (js_error + txresult list)" where
  "routeLoop env w part lastDomain result [] =
     (case processPart env w part lastDomain result of
        (w', Inl e) \<Rightarrow> (w', Inl e)
      | (w', Inr (result', part')) \<Rightarrow> (w', Inr result'))"
| "routeLoop env w part lastDomain result (t # txes) =
     (let txCUD = extractTx t in
      if \<not> isDerived (hier env) (tx_class txCUD) core_class_TxCUD then
        routeLoop env (w\<lparr>calls := calls w @ [CtxError t]\<rparr>) part lastDomain result txes
      else
        (let d = getDomain (hier env) (objectClass (hdr txCUD)) in
         if part \<noteq> [] then
           (if lastDomain \<noteq> d then
              (case processPart env w part lastDomain result of
                 (w', Inl e) \<Rightarrow> (w', Inl e)
               | (w', Inr (result', part')) \<Rightarrow> routeLoop env w' (part' @ [txCUD]) d result' txes)
            else routeLoop env w (part @ [txCUD]) d result txes)
         else routeLoop env w (part @ [txCUD]) d result txes))"

definition routeTx :: "'db env \<Rightarrow> 'db world \<Rightarrow> tx list \<Rightarrow> 'db world \<times> (js_error + txresult list)" where
  "routeTx env w txes = routeLoop env w [] [] [] txes"

text \<open>
  For stating what the router does: whether \<open>routeTx\<close> accepts a transaction, the domain
  of an extracted transaction, and the \<open>adapter.tx\<close> calls and error logs among the calls.
\<close>

definition supported :: "'db env \<Rightarrow> tx \<Rightarrow> bool" where
  "supported env t = isDerived (hier env) (tx_class (extractTx t)) core_class_TxCUD"

definition txDomain :: "'db env \<Rightarrow> tx \<Rightarrow> domain" where
  "txDomain env t = getDomain (hier env) (objectClass (hdr t))"

fun adapterTxCalls :: "call list \<Rightarrow> (domain \<times> tx list) list" where
  "adapterTxCalls [] = []"
| "adapterTxCalls (AdapterTx d part # cs) = (d, part) # adapterTxCalls cs"
| "adapterTxCalls (c # cs) = adapterTxCalls cs"

fun errorLogs :: "call list \<Rightarrow> tx list" where
  "errorLogs [] = []"
| "errorLogs (CtxError t # cs) = t # errorLogs cs"
| "errorLogs (c # cs) = errorLogs cs"

text \<open>
  The contiguous runs of a list by a key, continuing a run \<open>part\<close> of key \<open>d\<close> that is
  already open: the partition the specification describes.
\<close>

fun runsFrom :: "('a \<Rightarrow> 'k) \<Rightarrow> 'a list \<Rightarrow> 'k \<Rightarrow> 'a list \<Rightarrow> ('k \<times> 'a list) list" where
  "runsFrom key part d [] = (if part = [] then [] else [(d, part)])"
| "runsFrom key part d (t # ts) =
     (if part \<noteq> [] \<and> d \<noteq> key t then (d, part) # runsFrom key [t] (key t) ts
      else runsFrom key (part @ [t]) (key t) ts)"

section \<open>Collection counters (storage.ts: getCollectionUpdateTx, updateCollection, processCollection)\<close>

definition incOps :: "string \<Rightarrow> int \<Rightarrow> ops" where
  "incOps coll n = \<lparr>op_attachedTo = None, op_attachedToClass = None, op_collection = None,
     op_space = None, op_inc = [(coll, n)]\<rparr>"

text \<open>
  \<open>getCollectionUpdateTx(_id, _class, modifiedBy, modifiedOn, attachedTo, update)\<close>; the
  factory's \<open>Date.now()\<close> is overwritten by \<open>modifiedOn\<close>.
\<close>

definition getCollectionUpdateTx ::
  "hierarchy \<Rightarrow> ref \<Rightarrow> ref \<Rightarrow> ref \<Rightarrow> int \<Rightarrow> doc \<Rightarrow> ops \<Rightarrow> tx" where
  "getCollectionUpdateTx h oid cls account mod_on parent update =
     (if getBaseClass h cls \<noteq> cls
      then createTxMixin account mod_on oid (doc_class parent) (doc_space parent) cls update
      else createTxUpdateDoc account mod_on cls (doc_space parent) oid update)"

text \<open>
  \<open>updateCollection\<close>. A nested transaction has \<open>operations\<close> only when it is a
  \<open>TxUpdateDoc\<close>; for every other nested transaction the function returns \<open>[]\<close> at its
  first or its second test.
\<close>

fun updateCollection :: "hierarchy \<Rightarrow> findAllFn \<Rightarrow> tx \<Rightarrow> js_error + tx list" where
  "updateCollection h fa (TxCollectionCUD colTx coll (TxUpdateDoc nh operations)) =
     (if getDomain h (objectClass colTx) = DOMAIN_MODEL then Inr []
      else if op_attachedTo operations = None \<or> op_attachedTo operations = Some (objectId colTx) then Inr []
      else
        bindE (fa (objectClass colTx) (ById (objectId colTx)) (Some 1)) (\<lambda>olds.
          let oldTx =
                (case first olds of
                   None \<Rightarrow> []
                 | Some oldAttachedTo \<Rightarrow>
                     (case findAttribute h (doc_class oldAttachedTo) coll of
                        None \<Rightarrow> []
                      | Some attr \<Rightarrow>
                          [getCollectionUpdateTx h (objectId colTx) (objectClass colTx)
                             (modifiedBy colTx) (modifiedOn colTx) oldAttachedTo (incOps coll (-1))]));
              newAttachedToClass =
                (case op_attachedToClass operations of Some c \<Rightarrow> c | None \<Rightarrow> objectClass colTx);
              newAttachedToCollection =
                (case op_collection operations of Some c \<Rightarrow> c | None \<Rightarrow> coll)
          in bindE (fa newAttachedToClass (ById (the (op_attachedTo operations))) (Some 1)) (\<lambda>news.
               let newTx =
                     (case (first news, findAttribute h newAttachedToClass newAttachedToCollection) of
                        (Some newAttachedTo, Some newAttr) \<Rightarrow>
                          [getCollectionUpdateTx h (doc_id newAttachedTo) (doc_class newAttachedTo)
                             (modifiedBy colTx) (modifiedOn colTx) newAttachedTo
                             (incOps newAttachedToCollection 1)]
                      | other \<Rightarrow> [])
               in Inr (oldTx @ newTx))))"
| "updateCollection h fa t = Inr []"

text \<open>One iteration of the loop of \<open>processCollection\<close>: what it pushes for \<open>tx\<close>.\<close>

fun collectionStep :: "hierarchy \<Rightarrow> findAllFn \<Rightarrow> (ref \<Rightarrow> doc option) \<Rightarrow> tx \<Rightarrow> js_error + tx list" where
  "collectionStep h fa removed (TxCollectionCUD colTx coll nested) =
     (if getDomain h (objectClass colTx) = DOMAIN_MODEL then Inr []
      else
        (let isCreateTx = (tx_class nested = core_class_TxCreateDoc);
             isDeleteTx = (tx_class nested = core_class_TxRemoveDoc);
             isUpdateTx = (tx_class nested = core_class_TxUpdateDoc)
         in bindE (if isUpdateTx then updateCollection h fa (TxCollectionCUD colTx coll nested) else Inr [])
              (\<lambda>upd.
                 if (isCreateTx \<or> isDeleteTx) \<and> removed (objectId colTx) = None then
                   bindE (fa (objectClass colTx) (ById (objectId colTx)) (Some 1)) (\<lambda>found.
                     case first found of
                       None \<Rightarrow> Inr upd
                     | Some parent \<Rightarrow>
                         Inr (upd @ [getCollectionUpdateTx h (objectId colTx) (objectClass colTx)
                                       (modifiedBy colTx) (modifiedOn colTx) parent
                                       (incOps coll (if isCreateTx then 1 else -1))]))
                 else Inr upd)))"
| "collectionStep h fa removed t = Inr []"

fun processCollection :: "hierarchy \<Rightarrow> findAllFn \<Rightarrow> (ref \<Rightarrow> doc option) \<Rightarrow> tx list \<Rightarrow> js_error + tx list" where
  "processCollection h fa removed [] = Inr []"
| "processCollection h fa removed (t # txes) =
     bindE (collectionStep h fa removed t) (\<lambda>r.
       bindE (processCollection h fa removed txes) (\<lambda>rest. Inr (r @ rest)))"

section \<open>Cascading removal (storage.ts: getParentClass, getMixins, processRemove, deleteClassCollections,
  deleteObject, deleteRelatedDocuments)\<close>

text \<open>\<open>getParentClass\<close>: the last ancestor whose class has the base domain; a \<open>getClass\<close> that throws is skipped.\<close>

fun parentLoop :: "hierarchy \<Rightarrow> domain \<Rightarrow> ref \<Rightarrow> ref list \<Rightarrow> ref" where
  "parentLoop h baseDomain result [] = result"
| "parentLoop h baseDomain result (ancestor # rest) =
     (case getClass h ancestor of
        None \<Rightarrow> parentLoop h baseDomain result rest
      | Some c \<Rightarrow>
          if cls_domain c = Some baseDomain then parentLoop h baseDomain ancestor rest
          else parentLoop h baseDomain result rest)"

definition getParentClass :: "hierarchy \<Rightarrow> ref \<Rightarrow> ref" where
  "getParentClass h cls = parentLoop h (getDomain h cls) cls (getAncestors h cls)"

text \<open>The \<open>filter\<close> of \<open>getMixins\<close>; \<open>getClass(m)\<close> throws for an unknown class.\<close>

fun mixinFilter :: "hierarchy \<Rightarrow> doc \<Rightarrow> ref list \<Rightarrow> js_error + ref list" where
  "mixinFilter h object [] = Inr []"
| "mixinFilter h object (m # ms) =
     (case getClass h m of
        None \<Rightarrow> Inl (Error (''class not found: '' @ m))
      | Some c \<Rightarrow>
          bindE (mixinFilter h object ms) (\<lambda>rest.
            Inr (if cls_kind c = MIXIN \<and> hasMixin h object m then m # rest else rest)))"

definition getMixins :: "hierarchy \<Rightarrow> ref \<Rightarrow> doc \<Rightarrow> js_error + ref list" where
  "getMixins h cls object = mixinFilter h object (getDescendants h (getParentClass h cls))"

text \<open>\<open>deleteObject\<close>: the transactions it returns and the \<open>removedMap\<close> it leaves.\<close>

definition deleteObject ::
  "hierarchy \<Rightarrow> int \<Rightarrow> doc \<Rightarrow> (ref \<Rightarrow> doc option) \<Rightarrow> tx list \<times> (ref \<Rightarrow> doc option)" where
  "deleteObject h now object removed =
     (if isDerived h (doc_class object) core_class_AttachedDoc then
        (let nestedTx = createTxRemoveDoc (doc_modifiedBy object) now
                          (doc_class object) (doc_space object) (doc_id object);
             t = createTxCollectionCUD (doc_modifiedBy object) now (attachedToClass object)
                   (attachedTo object) (doc_space object) (collection object) nestedTx
         in ([t], removed(doc_id object \<mapsto> object)))
      else
        ([createTxRemoveDoc (doc_modifiedBy object) now (doc_class object) (doc_space object) (doc_id object)],
         removed(doc_id object \<mapsto> object)))"

text \<open>\<open>for (const d of docs) result.push(...this.deleteObject(ctx, d, removedMap))\<close>\<close>

fun deleteObjects ::
  "hierarchy \<Rightarrow> int \<Rightarrow> doc list \<Rightarrow> (ref \<Rightarrow> doc option) \<Rightarrow> tx list \<times> (ref \<Rightarrow> doc option)" where
  "deleteObjects h now [] removed = ([], removed)"
| "deleteObjects h now (d # ds) removed =
     (let r = deleteObject h now d removed;
          rest = deleteObjects h now ds (snd r)
      in (fst r @ fst rest, snd rest))"

text \<open>The loop of \<open>deleteClassCollections\<close> over the attributes.\<close>

fun deleteAttributes ::
  "hierarchy \<Rightarrow> int \<Rightarrow> findAllFn \<Rightarrow> ref \<Rightarrow> (string \<times> attribute) list \<Rightarrow> (ref \<Rightarrow> doc option)
     \<Rightarrow> js_error + tx list \<times> (ref \<Rightarrow> doc option)" where
  "deleteAttributes h now fa oid [] removed = Inr ([], removed)"
| "deleteAttributes h now fa oid (a # as) removed =
     (if isDerived h (attr_type_class (snd a)) core_class_Collection then
        bindE (fa (attr_type_of (snd a)) (ByAttachedTo oid) None) (\<lambda>allAttached.
          let r = deleteObjects h now allAttached removed in
          bindE (deleteAttributes h now fa oid as (snd r)) (\<lambda>rest.
            Inr (fst r @ fst rest, snd rest)))
      else deleteAttributes h now fa oid as removed)"

definition deleteClassCollections ::
  "hierarchy \<Rightarrow> int \<Rightarrow> findAllFn \<Rightarrow> ref \<Rightarrow> ref \<Rightarrow> ref option \<Rightarrow> (ref \<Rightarrow> doc option)
     \<Rightarrow> js_error + tx list \<times> (ref \<Rightarrow> doc option)" where
  "deleteClassCollections h now fa cls oid to removed =
     deleteAttributes h now fa oid (getAllAttributes h cls to) removed"

text \<open>The loop of \<open>processRemove\<close> over the mixins of the removed object.\<close>

fun deleteMixins ::
  "hierarchy \<Rightarrow> int \<Rightarrow> findAllFn \<Rightarrow> doc \<Rightarrow> ref \<Rightarrow> ref list \<Rightarrow> (ref \<Rightarrow> doc option)
     \<Rightarrow> js_error + tx list \<times> (ref \<Rightarrow> doc option)" where
  "deleteMixins h now fa object oid [] removed = Inr ([], removed)"
| "deleteMixins h now fa object oid (m # ms) removed =
     bindE (deleteClassCollections h now fa m oid (Some (doc_class object)) removed) (\<lambda>r.
       bindE (deleteMixins h now fa object oid ms (snd r)) (\<lambda>rest.
         Inr (fst r @ fst rest, snd rest)))"

definition deleteRelatedDocuments ::
  "hierarchy \<Rightarrow> (string \<Rightarrow> findAllFn \<Rightarrow> doc \<Rightarrow> js_error + doc list) \<Rightarrow> int \<Rightarrow> findAllFn \<Rightarrow> doc
     \<Rightarrow> (ref \<Rightarrow> doc option) \<Rightarrow> js_error + tx list \<times> (ref \<Rightarrow> doc option)" where
  "deleteRelatedDocuments h resource now fa object removed =
     (case getClass h (doc_class object) of
        None \<Rightarrow> Inl (Error (''class not found: '' @ doc_class object))
      | Some objectCls \<Rightarrow>
          (case cls_collectDocs objectCls of
             None \<Rightarrow> Inr ([], removed)
           | Some collectDocs \<Rightarrow>
               bindE (resource collectDocs fa object) (\<lambda>docs. Inr (deleteObjects h now docs removed))))"

text \<open>One iteration of the loop of \<open>processRemove\<close>.\<close>

definition removeStep ::
  "hierarchy \<Rightarrow> (string \<Rightarrow> findAllFn \<Rightarrow> doc \<Rightarrow> js_error + doc list) \<Rightarrow> int \<Rightarrow> findAllFn \<Rightarrow> tx
     \<Rightarrow> (ref \<Rightarrow> doc option) \<Rightarrow> js_error + tx list \<times> (ref \<Rightarrow> doc option)" where
  "removeStep h resource now fa t removed =
     (let actualTx = extractTx t in
      if \<not> isDerived h (tx_class actualTx) core_class_TxRemoveDoc then Inr ([], removed)
      else
        (case removed (objectId (hdr actualTx)) of
           None \<Rightarrow> Inr ([], removed)
         | Some object \<Rightarrow>
             bindE (deleteClassCollections h now fa (doc_class object) (objectId (hdr actualTx)) None removed)
               (\<lambda>r1.
             bindE (getMixins h (doc_class object) object) (\<lambda>mixins.
             bindE (deleteMixins h now fa object (objectId (hdr actualTx)) mixins (snd r1)) (\<lambda>r2.
             bindE (deleteRelatedDocuments h resource now fa object (snd r2)) (\<lambda>r3.
               Inr (fst r1 @ fst r2 @ fst r3, snd r3)))))))"

fun processRemove ::
  "hierarchy \<Rightarrow> (string \<Rightarrow> findAllFn \<Rightarrow> doc \<Rightarrow> js_error + doc list) \<Rightarrow> int \<Rightarrow> findAllFn \<Rightarrow> tx list
     \<Rightarrow> (ref \<Rightarrow> doc option) \<Rightarrow> js_error + tx list \<times> (ref \<Rightarrow> doc option)" where
  "processRemove h resource now fa [] removed = Inr ([], removed)"
| "processRemove h resource now fa (t # txes) removed =
     bindE (removeStep h resource now fa t removed) (\<lambda>r.
       bindE (processRemove h resource now fa txes (snd r)) (\<lambda>rest.
         Inr (fst r @ fst rest, snd rest)))"

text \<open>
  The remove transaction for a document \<open>d\<close>, in the specification's words: a
  \<open>TxRemoveDoc\<close> of \<open>d\<close>, wrapped in a \<open>TxCollectionCUD\<close> addressed to the parent's
  collection when \<open>d\<close> is an \<open>AttachedDoc\<close>, and plain otherwise.
\<close>

definition removeTxOf :: "hierarchy \<Rightarrow> int \<Rightarrow> doc \<Rightarrow> tx" where
  "removeTxOf h now d =
     (if isDerived h (doc_class d) core_class_AttachedDoc
      then TxCollectionCUD
             (factoryHdr (doc_modifiedBy d) now (attachedTo d) (attachedToClass d) (doc_space d))
             (collection d)
             (TxRemoveDoc (factoryHdr (doc_modifiedBy d) now (doc_id d) (doc_class d) (doc_space d)))
      else TxRemoveDoc (factoryHdr (doc_modifiedBy d) now (doc_id d) (doc_class d) (doc_space d)))"

text \<open>
  For stating what the counters emit: the update a \<open>TxUpdateDoc\<close> or a \<open>TxMixin\<close>
  carries, and the class and collection a re-parenting update names for the new parent
  (\<open>operations.attachedToClass ?? _class\<close>, \<open>operations.collection ?? colTx.collection\<close>).
\<close>

fun updateOf :: "tx \<Rightarrow> ops option" where
  "updateOf (TxUpdateDoc h operations) = Some operations"
| "updateOf (TxMixin h mixin attributes) = Some attributes"
| "updateOf t = None"

definition newParentClass :: "txhdr \<Rightarrow> ops \<Rightarrow> ref" where
  "newParentClass colTx operations =
     (case op_attachedToClass operations of Some c \<Rightarrow> c | None \<Rightarrow> objectClass colTx)"

definition newParentCollection :: "string \<Rightarrow> ops \<Rightarrow> string" where
  "newParentCollection coll operations =
     (case op_collection operations of Some c \<Rightarrow> c | None \<Rightarrow> coll)"

section \<open>Space moves and the derivation loop (storage.ts: processMove, processDerived, processDerivedTxes)\<close>

definition spaceOps :: "ref option \<Rightarrow> ops" where
  "spaceOps sp = \<lparr>op_attachedTo = None, op_attachedToClass = None, op_collection = None,
     op_space = sp, op_inc = []\<rparr>"

text \<open>The loop of \<open>processMove\<close> over the attributes of the moved object's class.\<close>

fun moveAttributes ::
  "hierarchy \<Rightarrow> int \<Rightarrow> findAllFn \<Rightarrow> ref \<Rightarrow> txhdr \<Rightarrow> ops \<Rightarrow> (string \<times> attribute) list \<Rightarrow> js_error + tx list" where
  "moveAttributes h now fa account rtx operations [] = Inr []"
| "moveAttributes h now fa account rtx operations (a # as) =
     (if \<not> isDerived h (attr_type_class (snd a)) core_class_Collection
      then moveAttributes h now fa account rtx operations as
      else
        bindE (fa (attr_type_of (snd a)) (ByAttachedToSpace (objectId rtx) (objectSpace rtx)) None)
          (\<lambda>allAttached.
             bindE (moveAttributes h now fa account rtx operations as) (\<lambda>rest.
               Inr (map (\<lambda>d. createTxUpdateDoc account now (doc_class d) (doc_space d) (doc_id d)
                               (spaceOps (op_space operations))) allAttached @ rest))))"

text \<open>
  One iteration of the loop of \<open>processMove\<close>. Only a \<open>TxUpdateDoc\<close> has \<open>operations\<close>:
  for another transaction whose class derives from \<open>TxUpdateDoc\<close>, reading
  \<open>rtx.operations.space\<close> throws a \<open>TypeError\<close>.
\<close>

definition moveStep :: "hierarchy \<Rightarrow> int \<Rightarrow> findAllFn \<Rightarrow> tx \<Rightarrow> js_error + tx list" where
  "moveStep h now fa t =
     (let actualTx = extractTx t in
      if \<not> isDerived h (tx_class actualTx) core_class_TxUpdateDoc then Inr []
      else
        (case actualTx of
           TxUpdateDoc rtx operations \<Rightarrow>
             if op_space operations = None \<or> op_space operations = Some (objectSpace rtx) then Inr []
             else moveAttributes h now fa (modifiedBy (hdr t)) rtx operations
                    (getAllAttributes h (objectClass rtx) None)
         | other \<Rightarrow> Inl TypeError))"

fun processMove :: "hierarchy \<Rightarrow> int \<Rightarrow> findAllFn \<Rightarrow> tx list \<Rightarrow> js_error + tx list" where
  "processMove h now fa [] = Inr []"
| "processMove h now fa (t # txes) =
     bindE (moveStep h now fa t) (\<lambda>r.
       bindE (processMove h now fa txes) (\<lambda>rest. Inr (r @ rest)))"

text \<open>
  The four derivations of \<open>processDerived\<close>, in the source's order, on the store as it is
  when the pass starts: the derived transactions and the \<open>removedMap\<close> the pass leaves.
\<close>

definition derivePass :: "'db env \<Rightarrow> 'db world \<Rightarrow> tx list \<Rightarrow> js_error + tx list \<times> (ref \<Rightarrow> doc option)" where
  "derivePass env w txes =
     (let fa = findAll env (w_db w) in
      bindE (processRemove (hier env) (getResource env) (Date_now env) fa txes (removedMap w)) (\<lambda>removed.
      bindE (processCollection (hier env) fa (snd removed) txes) (\<lambda>collections.
      bindE (processMove (hier env) (Date_now env) fa txes) (\<lambda>moves.
      bindE (triggers_apply env fa (snd removed) txes) (\<lambda>triggers.
        Inr (fst removed @ collections @ moves @ triggers, snd removed))))))"

text \<open>
  \<open>processDerived\<close> and \<open>processDerivedTxes\<close> call each other with no bound on the
  depth. \<open>fuel\<close> counts the calls of \<open>processDerived\<close> still allowed; \<open>None\<close> is a
  recursion that has not returned within them. \<open>derived.sort\<close> is a stable sort on
  \<open>modifiedOn\<close>.
\<close>

fun processDerived :: "nat \<Rightarrow> 'db env \<Rightarrow> 'db world \<Rightarrow> tx list \<Rightarrow> ('db world \<times> (js_error + tx list)) option"
  and processDerivedTxes :: "nat \<Rightarrow> 'db env \<Rightarrow> 'db world \<Rightarrow> tx list \<Rightarrow> ('db world \<times> (js_error + tx list)) option" where
  "processDerived 0 env w txes = None"
| "processDerived (Suc fuel) env w txes =
     (case derivePass env w txes of
        Inl e \<Rightarrow> Some (w, Inl e)
      | Inr r \<Rightarrow> processDerivedTxes fuel env (w\<lparr>removedMap := snd r\<rparr>) (fst r))"
| "processDerivedTxes fuel env w derived =
     (let sorted = sort_key (\<lambda>t. modifiedOn (hdr t)) derived;
          routed = routeTx env w sorted
      in case snd routed of
           Inl e \<Rightarrow> Some (fst routed, Inl e)
         | Inr results \<Rightarrow>
             if sorted \<noteq> [] then
               (case processDerived fuel env (fst routed) sorted of
                  None \<Rightarrow> None
                | Some (w', Inl e) \<Rightarrow> Some (w', Inl e)
                | Some (w', Inr nestedTxes) \<Rightarrow> Some (w', Inr (sorted @ nestedTxes)))
             else Some (fst routed, Inr sorted))"

text \<open>
  For the termination argument: with \<open>rank\<close> the height of a document in the object
  graph, a transaction that can derive others weighs more than each of them. The counter
  updates (\<open>TxUpdateDoc\<close> without a space change, \<open>TxMixin\<close>) weigh nothing.
\<close>

fun baseWeight :: "(ref \<Rightarrow> nat) \<Rightarrow> tx \<Rightarrow> nat" where
  "baseWeight rank (TxUpdateDoc h operations) =
     (if op_space operations = None then 0 else 2 * rank (objectId h) + 1)"
| "baseWeight rank (TxMixin h mixin attributes) = 0"
| "baseWeight rank t = 2 * rank (objectId (hdr t)) + 1"

fun weight :: "(ref \<Rightarrow> nat) \<Rightarrow> tx \<Rightarrow> nat" where
  "weight rank (TxCollectionCUD h coll t) = baseWeight rank t + 1"
| "weight rank t = baseWeight rank t"

definition maxWeight :: "(ref \<Rightarrow> nat) \<Rightarrow> tx list \<Rightarrow> nat" where
  "maxWeight rank txes = fold max (map (weight rank) txes) 0"

text \<open>
  A finite object graph without removal cycles, seen from the store: \<open>rank\<close> is the
  height of a document in the graph and \<open>good\<close> the stores the adapters can reach. In a
  good store, the documents found attached to a parent, and the documents a class's
  collector returns for an object, have a smaller rank than the parent or the object, and
  an adapter's \<open>tx\<close> leads from a good store to a good store.
\<close>

definition cascadeBounded :: "'db env \<Rightarrow> (ref \<Rightarrow> nat) \<Rightarrow> ('db \<Rightarrow> bool) \<Rightarrow> bool" where
  "cascadeBounded env rank good \<longleftrightarrow>
     (\<forall>db c p limit docs. good db \<longrightarrow> findAll env db c (ByAttachedTo p) limit = Inr docs \<longrightarrow>
        (\<forall>d\<in>set docs. rank (doc_id d) < rank p))
   \<and> (\<forall>db c p sp limit docs. good db \<longrightarrow> findAll env db c (ByAttachedToSpace p sp) limit = Inr docs \<longrightarrow>
        (\<forall>d\<in>set docs. rank (doc_id d) < rank p))
   \<and> (\<forall>db r object docs. good db \<longrightarrow> getResource env r (findAll env db) object = Inr docs \<longrightarrow>
        (\<forall>d\<in>set docs. rank (doc_id d) < rank (doc_id object)))
   \<and> (\<forall>db dmn a part. good db \<longrightarrow> getAdapter env dmn = Inr a \<longrightarrow> good (fst (ad_tx a db part)))"

text \<open>\<open>removedMap\<close> holds each document under its own id.\<close>

definition keyed :: "(ref \<Rightarrow> doc option) \<Rightarrow> bool" where
  "keyed removed \<longleftrightarrow> (\<forall>k d. removed k = Some d \<longrightarrow> doc_id d = k)"

section \<open>Backup digest (backup.ts: loadDigest, writeChanges)\<close>

text \<open>
  A JavaScript string is the list of its UTF-16 code units, as integers: the text of a
  snapshot file (\<open>gunzipSync(...).toString()\<close>), its lines, the ids and the hashes.
\<close>

type_synonym jsString = "int list"

text \<open>
  The JavaScript built-ins \<open>loadDigest\<close> uses on its lines. \<open>split\<close> with a one-character
  separator always returns at least one piece.
\<close>

fun splitOn :: "'a \<Rightarrow> 'a list \<Rightarrow> 'a list list" where
  "splitOn c [] = [[]]"
| "splitOn c (x # xs) =
     (if x = c then [] # splitOn c xs
      else (case splitOn c xs of [] \<Rightarrow> [[x]] | w # ws \<Rightarrow> (x # w) # ws))"

text \<open>
  \<open>StrWhiteSpaceChar\<close>: the white space and line terminators \<open>parseInt\<close> skips (tab, line
  feed, vertical tab, form feed, carriage return, space, no-break space, the space
  separators of Unicode, the line and paragraph separators, the byte order mark).
\<close>

definition strWhiteSpaceChar :: "int \<Rightarrow> bool" where
  "strWhiteSpaceChar c =
     (c \<in> set [0x09, 0x0A, 0x0B, 0x0C, 0x0D, 0x20, 0xA0, 0x1680, 0x2028, 0x2029, 0x202F, 0x205F,
               0x3000, 0xFEFF]
      \<or> (0x2000 \<le> c \<and> c \<le> 0x200A))"

definition decDigit :: "int \<Rightarrow> nat option" where
  "decDigit n = (if 48 \<le> n \<and> n \<le> 57 then Some (nat (n - 48)) else None)"

definition hexDigit :: "int \<Rightarrow> nat option" where
  "hexDigit n =
     (if 48 \<le> n \<and> n \<le> 57 then Some (nat (n - 48))
      else if 97 \<le> n \<and> n \<le> 102 then Some (nat (n - 87))
      else if 65 \<le> n \<and> n \<le> 70 then Some (nat (n - 55))
      else None)"

text \<open>The value of the longest prefix of digits, \<open>None\<close> when there is no digit.\<close>

fun digitsFrom :: "nat \<Rightarrow> (int \<Rightarrow> nat option) \<Rightarrow> nat option \<Rightarrow> jsString \<Rightarrow> nat option" where
  "digitsFrom base digit acc [] = acc"
| "digitsFrom base digit acc (c # cs) =
     (case digit c of
        None \<Rightarrow> acc
      | Some d \<Rightarrow> digitsFrom base digit (Some ((case acc of None \<Rightarrow> 0 | Some a \<Rightarrow> a) * base + d)) cs)"

text \<open>
  \<open>parseInt(s)\<close> without a radix: leading white space, a sign (\<open>-\<close> is 45, \<open>+\<close> is 43), a
  \<open>0x\<close> or \<open>0X\<close> prefix for hexadecimal, then the longest prefix of digits; \<open>None\<close> is
  \<open>NaN\<close>. The result is the exact integer where JavaScript has its double: the two agree
  below \<open>2^53\<close>, and above it both exceed the length of any array, which is all
  \<open>splice\<close> looks at.
\<close>

definition parseInt :: "jsString \<Rightarrow> int option" where
  "parseInt s =
     (let s1 = dropWhile strWhiteSpaceChar s;
          neg = (case s1 of [] \<Rightarrow> False | c # r \<Rightarrow> c = 45);
          s2 = (case s1 of [] \<Rightarrow> [] | c # r \<Rightarrow> if c = 45 \<or> c = 43 then r else s1);
          v = (case s2 of
                 a # b # r \<Rightarrow>
                   if a = 48 \<and> (b = 120 \<or> b = 88)
                   then digitsFrom 16 hexDigit None r
                   else digitsFrom 10 decDigit None s2
               | other \<Rightarrow> digitsFrom 10 decDigit None s2)
      in map_option (\<lambda>n. if neg then - int n else int n) v)"

text \<open>
  \<open>dataBlob.shift() ?? '0'\<close> followed by \<open>parseInt\<close>, and the number of elements
  \<open>splice(0, count)\<close> removes: \<open>NaN\<close> and negative counts remove nothing.
\<close>

definition shiftCount :: "jsString list \<Rightarrow> nat \<times> jsString list" where
  "shiftCount blob =
     (let line = (case blob of [] \<Rightarrow> [48] | l # ls \<Rightarrow> l);
          rest = (case blob of [] \<Rightarrow> [] | l # ls \<Rightarrow> ls);
          n = (case parseInt line of None \<Rightarrow> 0 | Some i \<Rightarrow> nat i)
      in (n, rest))"

text \<open>
  The digest is a JavaScript \<open>Map\<close>: an association list in insertion order. \<open>set\<close>
  overwrites in place or appends, \<open>delete\<close> removes. A value is \<open>None\<close> when a line has
  no \<open>;\<close> (\<open>v\<close> is \<open>undefined\<close>).
\<close>

type_synonym digest = "(jsString \<times> jsString option) list"

fun mapSet :: "'k \<Rightarrow> 'v \<Rightarrow> ('k \<times> 'v) list \<Rightarrow> ('k \<times> 'v) list" where
  "mapSet k v [] = [(k, v)]"
| "mapSet k v (p # ps) = (if fst p = k then (k, v) # ps else p # mapSet k v ps)"

definition mapDelete :: "'k \<Rightarrow> ('k \<times> 'v) list \<Rightarrow> ('k \<times> 'v) list" where
  "mapDelete k m = filter (\<lambda>p. fst p \<noteq> k) m"

text \<open>\<open>const [k, v] = it.split(';'); result.set(k, v)\<close>; \<open>;\<close> is the code unit 59.\<close>

definition setLine :: "jsString \<Rightarrow> digest \<Rightarrow> digest" where
  "setLine it result =
     (case splitOn 59 it of
        [] \<Rightarrow> result
      | k # rest \<Rightarrow> mapSet k (case rest of [] \<Rightarrow> None | v # others \<Rightarrow> Some v) result)"

text \<open>The body of the \<open>try\<close> once the file is read and split into lines.\<close>

definition applyLines :: "jsString list \<Rightarrow> digest \<Rightarrow> digest" where
  "applyLines dataBlob result =
     (let a = shiftCount dataBlob;
          added = take (fst a) (snd a);
          blob1 = drop (fst a) (snd a);
          result1 = fold setLine added result;
          u = shiftCount blob1;
          updated = take (fst u) (snd u);
          blob2 = drop (fst u) (snd u);
          result2 = fold setLine updated result1;
          r = shiftCount blob2;
          removed = take (fst r) (snd r)
      in fold mapDelete removed result2)"

text \<open>
  The collaborators: \<open>loadText name\<close> is \<open>gunzipSync(await storage.loadFile(name)).toString()\<close>
  and \<open>parseV6\<close> is \<open>JSON.parse\<close> read as a \<open>SnapshotV6\<close>, its \<open>added\<close> and \<open>updated\<close>
  records in \<open>Object.entries\<close> order. Both may throw.
\<close>

record snapshotV6 =
  v6_added :: "(jsString \<times> jsString) list"
  v6_updated :: "(jsString \<times> jsString) list"
  v6_removed :: "jsString list"

record domainData =
  dd_snapshot :: "string option"
  dd_snapshots :: "string list option"

record backupSnapshot =
  bs_domains :: "domain \<Rightarrow> domainData option"
  bs_date :: int

definition applyV6 :: "snapshotV6 \<Rightarrow> digest \<Rightarrow> digest" where
  "applyV6 dChanges result =
     fold mapDelete (v6_removed dChanges)
       (fold (\<lambda>kv. mapSet (fst kv) (Some (snd kv))) (v6_updated dChanges)
          (fold (\<lambda>kv. mapSet (fst kv) (Some (snd kv))) (v6_added dChanges) result))"

text \<open>
  The inner loop over \<open>d?.snapshots ?? []\<close>: a file that cannot be read is logged
  (\<open>digest is broken\<close>) and leaves the digest as it is. The line feed is the code unit 10.
\<close>

fun applyFiles :: "(string \<Rightarrow> js_error + jsString) \<Rightarrow> string list \<Rightarrow> digest \<Rightarrow> digest" where
  "applyFiles loadText [] result = result"
| "applyFiles loadText (f # fs) result =
     (case loadText f of
        Inl e \<Rightarrow> applyFiles loadText fs result
      | Inr text \<Rightarrow> applyFiles loadText fs (applyLines (splitOn 10 text) result))"

text \<open>One iteration of the outer loop; the legacy snapshot is read outside any \<open>try\<close>.\<close>

definition applySnapshot ::
  "(string \<Rightarrow> js_error + jsString) \<Rightarrow> (jsString \<Rightarrow> js_error + snapshotV6) \<Rightarrow> domain \<Rightarrow> backupSnapshot
     \<Rightarrow> digest \<Rightarrow> js_error + digest" where
  "applySnapshot loadText parseV6 dmn s result =
     (let d = bs_domains s dmn;
          legacy = (case d of None \<Rightarrow> None | Some dd \<Rightarrow> dd_snapshot dd);
          files = (case d of None \<Rightarrow> [] | Some dd \<Rightarrow> (case dd_snapshots dd of None \<Rightarrow> [] | Some fs \<Rightarrow> fs))
      in bindE (case legacy of
                  None \<Rightarrow> Inr result
                | Some f \<Rightarrow> bindE (loadText f) (\<lambda>text. bindE (parseV6 text) (\<lambda>dChanges.
                             Inr (applyV6 dChanges result))))
           (\<lambda>result1. Inr (applyFiles loadText files result1)))"

text \<open>The outer loop from a digest \<open>result\<close>, with the \<open>break\<close> at the stop date.\<close>

fun digestFrom ::
  "(string \<Rightarrow> js_error + jsString) \<Rightarrow> (jsString \<Rightarrow> js_error + snapshotV6) \<Rightarrow> domain \<Rightarrow> int option
     \<Rightarrow> backupSnapshot list \<Rightarrow> digest \<Rightarrow> js_error + digest" where
  "digestFrom loadText parseV6 dmn date [] result = Inr result"
| "digestFrom loadText parseV6 dmn date (s # rest) result =
     bindE (applySnapshot loadText parseV6 dmn s result) (\<lambda>result1.
       if date = Some (bs_date s) then Inr result1
       else digestFrom loadText parseV6 dmn date rest result1)"

definition loadDigest ::
  "(string \<Rightarrow> js_error + jsString) \<Rightarrow> (jsString \<Rightarrow> js_error + snapshotV6) \<Rightarrow> backupSnapshot list \<Rightarrow> domain
     \<Rightarrow> int option \<Rightarrow> js_error + digest" where
  "loadDigest loadText parseV6 snapshots dmn date = digestFrom loadText parseV6 dmn date snapshots []"

text \<open>
  \<open>writeChanges\<close>, the writer of the line-oriented files: the text it sends through the
  gzip stream. \<open>decimal n\<close> is the template literal of a count; the entries of \<open>added\<close>
  and \<open>updated\<close> are in the order of their \<open>Map\<close>.
\<close>

fun decimal :: "nat \<Rightarrow> jsString" where
  "decimal n = (if n < 10 then [48 + int n] else decimal (n div 10) @ [48 + int (n mod 10)])"

declare decimal.simps [simp del]

record snapshot =
  sn_added :: "(jsString \<times> jsString) list"
  sn_updated :: "(jsString \<times> jsString) list"
  sn_removed :: "jsString list"

definition entryLine :: "jsString \<times> jsString \<Rightarrow> jsString" where
  "entryLine kv = fst kv @ [59] @ snd kv @ [10]"

definition writeChanges :: "snapshot \<Rightarrow> jsString" where
  "writeChanges changes =
     decimal (length (sn_added changes)) @ [10] @ concat (map entryLine (sn_added changes))
     @ decimal (length (sn_updated changes)) @ [10] @ concat (map entryLine (sn_updated changes))
     @ decimal (length (sn_removed changes)) @ [10] @ concat (map (\<lambda>k. k @ [10]) (sn_removed changes))"

text \<open>
  The specification's replay of one change record on an id-to-hash map: added, then
  updated entries inserted, removed ids deleted.
\<close>

definition replay_spec ::
  "(jsString \<times> jsString) list \<Rightarrow> (jsString \<times> jsString) list \<Rightarrow> jsString list
     \<Rightarrow> (jsString \<rightharpoonup> jsString option) \<Rightarrow> (jsString \<rightharpoonup> jsString option)" where
  "replay_spec added updated removed m =
     fold (\<lambda>k m. m(k := None)) removed
       (fold (\<lambda>kv m. m(fst kv \<mapsto> Some (snd kv))) updated
          (fold (\<lambda>kv m. m(fst kv \<mapsto> Some (snd kv))) added m))"


text \<open>
  A change record whose ids and hashes hold neither a line feed nor a \<open>;\<close>: what the
  line format can carry.
\<close>

definition lineSafe :: "snapshot \<Rightarrow> bool" where
  "lineSafe changes \<longleftrightarrow>
     (\<forall>kv\<in>set (sn_added changes @ sn_updated changes).
        10 \<notin> set (fst kv) \<and> 59 \<notin> set (fst kv) \<and> 10 \<notin> set (snd kv) \<and> 59 \<notin> set (snd kv))
   \<and> (\<forall>k\<in>set (sn_removed changes). 10 \<notin> set k)"


section \<open>Field-extraction stage (backup.ts: IndexedFieldStage.collect)\<close>

record docIndexState =
  dis_id :: ref
  dis_objectClass :: ref
  dis_attachedTo :: "ref option"

datatype stageValue = StageBool bool | StageText string

text \<open>
  The collaborators of \<open>collect\<close> over a pipeline state \<open>'p\<close>: the pipeline's
  \<open>cancelling\<close>, \<open>update\<close>, \<open>add\<close> and \<open>markRemove\<close>, the two \<open>dbStorage.findAll\<close>
  queries (documents by id, index states by \<open>attachedTo\<close>), and the helpers of
  \<open>./utils\<close>, which are not in this source: \<open>indexableAttributes\<close> is
  \<open>getFullTextIndexableAttributes\<close>, \<open>docUpdateOf\<close> is the computation of \<open>changes\<close> and
  \<open>docUpdate\<close> from the content of the document (from \<open>getContent\<close> to the custom
  attributes), \<open>parentPropagate\<close> is \<open>getFullTextContext(...).parentPropagate ?? true\<close>.
  Each may throw.
\<close>

record ('p, 'u, 'a) stageEnv =
  cancelling :: "'p \<Rightarrow> bool"
  pipeline_update :: "'p \<Rightarrow> ref \<Rightarrow> stageValue \<Rightarrow> 'u \<Rightarrow> js_error + 'p"
  pipeline_add :: "'p \<Rightarrow> docIndexState \<Rightarrow> 'p"
  pipeline_markRemove :: "'p \<Rightarrow> docIndexState \<Rightarrow> js_error + 'p"
  storage_findAll :: "'p \<Rightarrow> ref \<Rightarrow> ref list \<Rightarrow> js_error + doc list"
  storage_findChildren :: "'p \<Rightarrow> ref list \<Rightarrow> js_error + docIndexState list"
  indexableAttributes :: "ref \<Rightarrow> js_error + 'a"
  docUpdateOf :: "'a \<Rightarrow> docIndexState option \<Rightarrow> doc \<Rightarrow> js_error + nat \<times> 'u"
  parentPropagate :: "ref \<Rightarrow> js_error + bool"
  collectPropagate :: "'p \<Rightarrow> ref \<Rightarrow> js_error + ref list"
  stage_isDerived :: "ref \<Rightarrow> ref \<Rightarrow> bool"
  emptyUpdate :: 'u
  stageValueOf :: stageValue

text \<open>
  Statements that may throw, run in sequence on a state: the state reached, and the
  exception that stopped the sequence, if any.
\<close>

definition andThen :: "'s \<times> js_error option \<Rightarrow> ('s \<Rightarrow> 's \<times> js_error option) \<Rightarrow> 's \<times> js_error option" where
  "andThen r f = (case snd r of None \<Rightarrow> f (fst r) | Some e \<Rightarrow> r)"

definition attempt :: "'s \<Rightarrow> js_error + 's \<Rightarrow> 's \<times> js_error option" where
  "attempt s m = (case m of Inl e \<Rightarrow> (s, Some e) | Inr s' \<Rightarrow> (s', None))"

text \<open>The loop over \<open>childs\<close>: \<open>pipeline.add(u)\<close>, then \<open>await pipeline.update(u._id, false, {})\<close>.\<close>

fun propagateChildren ::
  "('p, 'u, 'a) stageEnv \<Rightarrow> ref list \<Rightarrow> docIndexState list \<Rightarrow> 'p \<Rightarrow> 'p \<times> js_error option" where
  "propagateChildren env propagate [] p = (p, None)"
| "propagateChildren env propagate (u # us) p =
     (if list_ex (\<lambda>it. stage_isDerived env (dis_objectClass u) it) propagate then
        andThen (attempt (pipeline_add env p u)
                   (pipeline_update env (pipeline_add env p u) (dis_id u) (StageBool False) (emptyUpdate env)))
          (propagateChildren env propagate us)
      else propagateChildren env propagate us p)"

text \<open>
  The \<open>try\<close> block for one document, on the pipeline state and the \<open>allChildDocs\<close> cache:
  what it leaves behind and the exception it throws, if any. \<open>docState\<close> is
  \<open>valueIds.get(doc._id)\<close>; reading a field of \<open>undefined\<close> throws a \<open>TypeError\<close>.
\<close>

definition tryBlock ::
  "('p, 'u, 'a) stageEnv \<Rightarrow> 'a \<Rightarrow> ref \<Rightarrow> doc list \<Rightarrow> docIndexState option \<Rightarrow> doc
     \<Rightarrow> 'p \<times> docIndexState list option \<Rightarrow> ('p \<times> docIndexState list option) \<times> js_error option" where
  "tryBlock env attributes objClass docs docState d st =
     (case docUpdateOf env attributes docState d of
        Inl e \<Rightarrow> (st, Some e)
      | Inr (changes, docUpdate) \<Rightarrow>
         (case docState of
            None \<Rightarrow> (st, Some TypeError)
          | Some ds \<Rightarrow>
             andThen
               (if dis_attachedTo ds \<noteq> None \<and> changes > 0 then
                  (case parentPropagate env objClass of
                     Inl e \<Rightarrow> (st, Some e)
                   | Inr pp \<Rightarrow>
                       if pp then
                         attempt st (map_sum id (\<lambda>p'. (p', snd st))
                           (pipeline_update env (fst st) (the (dis_attachedTo ds)) (StageBool False) (emptyUpdate env)))
                       else (st, None))
                else (st, None))
               (\<lambda>st1.
                  case collectPropagate env (fst st1) (dis_objectClass ds) of
                    Inl e \<Rightarrow> (st1, Some e)
                  | Inr propagate \<Rightarrow>
                      andThen
                        (if propagate \<noteq> [] then
                           andThen
                             (case snd st1 of
                                Some cached \<Rightarrow> (st1, None)
                              | None \<Rightarrow>
                                  attempt st1 (map_sum id (\<lambda>found. (fst st1, Some found))
                                    (storage_findChildren env (fst st1) (map doc_id docs))))
                             (\<lambda>st2.
                                let childs = filter (\<lambda>it. dis_attachedTo it = Some (dis_id ds))
                                               (case snd st2 of None \<Rightarrow> [] | Some cached \<Rightarrow> cached);
                                    r = propagateChildren env propagate childs (fst st2)
                                in ((fst r, snd st2), snd r))
                         else (st1, None))
                        (\<lambda>st3.
                           attempt st3 (map_sum id (\<lambda>p'. (p', snd st3))
                             (pipeline_update env (fst st3) (dis_id ds) (stageValueOf env) docUpdate))))))"

text \<open>
  The state of \<open>collect\<close>: the pipeline, the \<open>processed\<close> set (in insertion order), what
  \<open>console.error\<close> printed, whether the function has returned at a \<open>cancelling\<close> test,
  and the exception that left it, if any.
\<close>

record 'p collectState =
  cs_pipeline :: 'p
  cs_processed :: "ref list"
  cs_logged :: "js_error list"
  cs_returned :: bool
  cs_thrown :: "js_error option"

text \<open>The loop over \<open>docs\<close> for one class.\<close>

fun docLoop ::
  "('p, 'u, 'a) stageEnv \<Rightarrow> 'a \<Rightarrow> ref \<Rightarrow> doc list \<Rightarrow> (ref \<times> docIndexState) list
     \<Rightarrow> docIndexState list option \<Rightarrow> doc list \<Rightarrow> 'p collectState \<Rightarrow> 'p collectState" where
  "docLoop env attributes objClass docs valueIds allChildDocs [] st = st"
| "docLoop env attributes objClass docs valueIds allChildDocs (d # rest) st =
     (if cancelling env (cs_pipeline st) then st\<lparr>cs_returned := True\<rparr>
      else
        (let r = tryBlock env attributes objClass docs (map_of valueIds (doc_id d)) d
                   (cs_pipeline st, allChildDocs);
             st1 = st\<lparr>cs_pipeline := fst (fst r),
                       cs_processed := cs_processed st @ [doc_id d],
                       cs_logged := cs_logged st @ (case snd r of None \<Rightarrow> [] | Some e \<Rightarrow> [e])\<rparr>
         in docLoop env attributes objClass docs valueIds (snd (fst r)) rest st1))"











section \<open>Apply-if scopes (storage.ts: verifyApplyIf, fillTxes, processTxes)\<close>

text \<open>
  \<open>this.scopes\<close> maps a scope to its promise; promises are numbered, \<open>resolved\<close> lists
  the ones \<open>resolve(null)\<close> was called on.
\<close>

record scopeState =
  scopes :: "string \<Rightarrow> nat option"
  resolved :: "nat list"
  nextPromise :: nat

text \<open>
  A call returns a value, throws, or never gets past an \<open>await\<close>. Within one call of
  \<open>processTxes\<close>, with nothing else running, the promise found in \<open>scopes\<close> is
  resolved by nobody: \<open>await this.scopes.get(applyIf.scope)\<close> on a scope that is in the
  map does not return.
\<close>

datatype 'a outcome = Returns 'a | Throws js_error | Blocks

text \<open>The loops over \<open>applyIf.match\<close> and \<open>applyIf.notMatch\<close>; \<open>findAll\<close> may throw.\<close>

fun matchAll :: "findAllFn \<Rightarrow> (ref \<times> query) list \<Rightarrow> js_error + bool" where
  "matchAll fa [] = Inr True"
| "matchAll fa (m # ms) =
     bindE (fa (fst m) (snd m) (Some 1)) (\<lambda>res. if res = [] then Inr False else matchAll fa ms)"

fun noneMatch :: "findAllFn \<Rightarrow> (ref \<times> query) list \<Rightarrow> js_error + bool" where
  "noneMatch fa [] = Inr True"
| "noneMatch fa (m # ms) =
     bindE (fa (fst m) (snd m) (Some 1)) (\<lambda>res. if res \<noteq> [] then Inr False else noneMatch fa ms)"

text \<open>
  \<open>verifyApplyIf\<close>: the scopes it leaves, and \<open>passed\<close> with the \<open>onEnd\<close> closure, which
  is the scope and the promise it will release.
\<close>

text \<open>\<open>this.scopes.set(applyIf.scope, new Promise(...))\<close> with the next promise.\<close>

definition installScope :: "scopeState \<Rightarrow> string \<Rightarrow> scopeState" where
  "installScope st scope = st\<lparr>scopes := (scopes st)(scope \<mapsto> nextPromise st), nextPromise := nextPromise st + 1\<rparr>"

definition verifyApplyIf ::
  "findAllFn \<Rightarrow> scopeState \<Rightarrow> string \<Rightarrow> (ref \<times> query) list \<Rightarrow> (ref \<times> query) list
     \<Rightarrow> scopeState \<times> (bool \<times> string \<times> nat) outcome" where
  "verifyApplyIf fa st scope match notMatch =
     (case scopes st scope of
        Some p \<Rightarrow> (st, Blocks)
      | None \<Rightarrow>
          (let p = nextPromise st;
               st1 = installScope st scope
           in case matchAll fa match of
                Inl e \<Rightarrow> (st1, Throws e)
              | Inr passed \<Rightarrow>
                  if passed then
                    (case noneMatch fa notMatch of
                       Inl e \<Rightarrow> (st1, Throws e)
                     | Inr passed2 \<Rightarrow> (st1, Returns (passed2, scope, p)))
                  else (st1, Returns (False, scope, p))))"

text \<open>\<open>onEnd\<close>: \<open>this.scopes.delete(applyIf.scope); resolve(null)\<close>.\<close>

definition onEnd :: "string \<times> nat \<Rightarrow> scopeState \<Rightarrow> scopeState" where
  "onEnd e st = st\<lparr>scopes := (scopes st)(fst e := None), resolved := snd e # resolved st\<rparr>"

definition core_space_Model :: ref where
  "core_space_Model = ''core:space:Model''"

definition DOMAIN_TRANSIENT :: domain where
  "DOMAIN_TRANSIENT = ''transient''"

text \<open>The four arrays \<open>fillTxes\<close> pushes to.\<close>

record buckets =
  txToStore :: "tx list"
  modelTx :: "tx list"
  txToProcess :: "tx list"
  applyTxes :: "tx list"

fun fillTxes :: "hierarchy \<Rightarrow> (ref \<Rightarrow> domain option) \<Rightarrow> tx list \<Rightarrow> buckets \<Rightarrow> buckets" where
  "fillTxes h findDomain [] b = b"
| "fillTxes h findDomain (t # txes) b =
     (if \<not> isDerived h (tx_class t) core_class_TxApplyIf then
        (let b1 = (if tx_space (hdr t) \<noteq> core_space_DerivedTx then
                     (if isDerived h (tx_class t) core_class_TxCUD then
                        (if findDomain (objectClass (hdr t)) \<noteq> Some DOMAIN_TRANSIENT
                         then b\<lparr>txToStore := txToStore b @ [t]\<rparr> else b)
                      else b\<lparr>txToStore := txToStore b @ [t]\<rparr>)
                   else b);
             b2 = (if objectSpace (hdr t) = core_space_Model then b1\<lparr>modelTx := modelTx b1 @ [t]\<rparr> else b1)
         in fillTxes h findDomain txes (b2\<lparr>txToProcess := txToProcess b2 @ [t]\<rparr>))
      else fillTxes h findDomain txes (b\<lparr>applyTxes := applyTxes b @ [t]\<rparr>))"

text \<open>
  What the loop over \<open>applyTxes\<close> accumulates: the arrays (\<open>applyTxes\<close> holding the
  transactions still to visit), \<open>onEnds\<close>, \<open>result\<close> and \<open>derived\<close>.
\<close>

record applyAcc =
  acc_buckets :: buckets
  onEnds :: "(string \<times> nat) list"
  acc_result :: "txresult list"
  acc_derived :: "tx list"

text \<open>
  The loop \<open>for (const tx of applyTxes)\<close>, which visits the transactions a passing
  apply-if adds to the array it iterates. \<open>fuel\<close> bounds the iterations; \<open>None\<close> is the
  loop still running. A transaction that passed the class test of \<open>fillTxes\<close> is read as
  a \<open>TxApplyIf\<close>; one of another shape has no \<open>match\<close> to iterate, a \<open>TypeError\<close>.
\<close>

fun applyLoop ::
  "nat \<Rightarrow> hierarchy \<Rightarrow> (ref \<Rightarrow> domain option) \<Rightarrow> findAllFn \<Rightarrow> scopeState \<Rightarrow> applyAcc
     \<Rightarrow> (scopeState \<times> applyAcc \<times> unit outcome) option" where
  "applyLoop 0 h findDomain fa st acc = None"
| "applyLoop (Suc fuel) h findDomain fa st acc =
     (case applyTxes (acc_buckets acc) of
        [] \<Rightarrow> Some (st, acc, Returns ())
      | t # pending \<Rightarrow>
          (let acc0 = acc\<lparr>acc_buckets := (acc_buckets acc)\<lparr>applyTxes := pending\<rparr>\<rparr> in
           case t of
             TxApplyIf ah scope match notMatch txes \<Rightarrow>
               (case verifyApplyIf fa st scope match notMatch of
                  (st1, Blocks) \<Rightarrow> Some (st1, acc0, Blocks)
                | (st1, Throws e) \<Rightarrow> Some (st1, acc0, Throws e)
                | (st1, Returns r) \<Rightarrow>
                    (let acc1 = acc0\<lparr>onEnds := onEnds acc0 @ [snd r]\<rparr> in
                     if fst r then
                       applyLoop fuel h findDomain fa st1
                         (acc1\<lparr>acc_result := acc_result acc1 @ [ApplyIfResult True],
                               acc_buckets := fillTxes h findDomain txes (acc_buckets acc1),
                               acc_derived := txes\<rparr>)
                     else
                       applyLoop fuel h findDomain fa st1
                         (acc1\<lparr>acc_result := acc_result acc1 @ [ApplyIfResult False]\<rparr>)))
           | other \<Rightarrow> Some (st, acc0, Throws TypeError)))"

text \<open>
  \<open>processTxes\<close>: the apply-if loop, the rest of the \<open>try\<close> block (model transactions,
  store, route, derive, index: \<open>rest\<close>, which leaves \<open>scopes\<close> alone), and the \<open>finally\<close>
  that calls every collected \<open>onEnd\<close>. A call that blocks never reaches its \<open>finally\<close>.
\<close>

definition processTxes ::
  "nat \<Rightarrow> hierarchy \<Rightarrow> (ref \<Rightarrow> domain option) \<Rightarrow> findAllFn \<Rightarrow> (applyAcc \<Rightarrow> unit outcome) \<Rightarrow> scopeState
     \<Rightarrow> tx list \<Rightarrow> (scopeState \<times> txresult list outcome) option" where
  "processTxes fuel h findDomain fa rest st txes =
     (let b = fillTxes h findDomain txes \<lparr>txToStore = [], modelTx = [], txToProcess = [], applyTxes = []\<rparr>;
          acc = \<lparr>acc_buckets = b, onEnds = [], acc_result = [], acc_derived = []\<rparr>
      in case applyLoop fuel h findDomain fa st acc of
           None \<Rightarrow> None
         | Some (st1, acc1, out) \<Rightarrow>
             (let out2 = (case out of Returns u \<Rightarrow> rest acc1 | other \<Rightarrow> other) in
              case out2 of
                Blocks \<Rightarrow> Some (st1, Blocks)
              | Throws e \<Rightarrow> Some (fold onEnd (onEnds acc1) st1, Throws e)
              | Returns u \<Rightarrow> Some (fold onEnd (onEnds acc1) st1, Returns (acc_result acc1))))"

section \<open>Several calls in flight (storage.ts: verifyApplyIf between its awaits)\<close>

text \<open>
  JavaScript runs the code between two \<open>await\<close>s without interruption, so a call of
  \<open>processTxes\<close> with one apply-if goes through its scope in three steps. From \<open>Idle\<close>
  it evaluates \<open>this.scopes.get(applyIf.scope)\<close> and suspends on the promise it read
  (\<open>Awaiting\<close>; \<open>None\<close> is \<open>await undefined\<close>). Once that promise is resolved it goes
  on, without reading the map again: it installs its own promise and evaluates its
  predicates, then the rest of \<open>processTxes\<close> (\<open>Evaluating\<close>, the evaluation-to-completion
  window). The \<open>finally\<close> block calls \<open>onEnd\<close> (\<open>Ended\<close>).
\<close>

datatype phase = Idle | Awaiting "nat option" | Evaluating nat | Ended

text \<open>The next step of call \<open>i\<close>, when it can take one.\<close>

definition fire :: "nat \<Rightarrow> scopeState \<times> (string \<times> phase) list \<Rightarrow> (scopeState \<times> (string \<times> phase) list) option" where
  "fire i s =
     (let st = fst s; ts = snd s in
      if i \<ge> length ts then None
      else
        (case snd (ts ! i) of
           Idle \<Rightarrow> Some (st, ts[i := (fst (ts ! i), Awaiting (scopes st (fst (ts ! i))))])
         | Awaiting po \<Rightarrow>
             if (case po of None \<Rightarrow> True | Some p \<Rightarrow> p \<in> set (resolved st))
             then Some (installScope st (fst (ts ! i)), ts[i := (fst (ts ! i), Evaluating (nextPromise st))])
             else None
         | Evaluating q \<Rightarrow> Some (onEnd (fst (ts ! i), q) st, ts[i := (fst (ts ! i), Ended)])
         | Ended \<Rightarrow> None))"

text \<open>A schedule names the call that takes each step.\<close>

fun runSchedule :: "nat list \<Rightarrow> scopeState \<times> (string \<times> phase) list \<Rightarrow> (scopeState \<times> (string \<times> phase) list) option" where
  "runSchedule [] s = Some s"
| "runSchedule (i # rest) s = (case fire i s of None \<Rightarrow> None | Some s' \<Rightarrow> runSchedule rest s')"

section \<open>Sample values\<close>

text \<open>
  A small workspace for the worked examples: tasks with a \<open>comments\<close> collection, a
  mixin \<open>Tagged\<close> on tasks with a \<open>labels\<close> collection, a mixin \<open>Audited\<close> on
  \<open>core:class:Doc\<close> (a class without a domain, above the tasks' parent class) with an
  \<open>entries\<close> collection, a related-documents collector for tasks, and one in-memory
  adapter that serves every domain.
\<close>

definition exampleHdr :: txhdr where
  "exampleHdr = \<lparr>tx_space = ''core:space:Tx'', modifiedBy = ''user1'', modifiedOn = 10,
     objectId = ''A'', objectClass = ''task:class:Task'', objectSpace = ''sp''\<rparr>"

definition exampleOps :: ops where
  "exampleOps = \<lparr>op_attachedTo = None, op_attachedToClass = None, op_collection = None,
     op_space = None, op_inc = []\<rparr>"

definition exampleHierarchy :: hierarchy where
  "exampleHierarchy =
     \<lparr>isDerived = (\<lambda>c p. c = p
          \<or> (p = core_class_TxCUD \<and> c \<in> set [core_class_TxCreateDoc, core_class_TxUpdateDoc,
                core_class_TxRemoveDoc, core_class_TxMixin, core_class_TxCollectionCUD])
          \<or> (p = core_class_AttachedDoc
                \<and> c \<in> set [''chunter:class:Comment'', ''tags:class:Label'', ''audit:class:Entry''])),
      getDomain = (\<lambda>c. if c = ''chunter:class:Comment'' then ''chunter''
                       else if c = ''tags:class:Label'' then ''tags''
                       else if c = ''audit:class:Entry'' then ''audit'' else ''task''),
      getBaseClass = (\<lambda>c. if c = ''tags:mixin:Tagged'' then ''task:class:Task''
                          else if c = ''audit:mixin:Audited'' then ''core:class:Doc'' else c),
      findAttribute = (\<lambda>c n.
          if c = ''task:class:Task'' \<and> n = ''comments''
          then Some \<lparr>attr_name = ''comments'', attr_type_class = core_class_Collection,
                      attr_type_of = ''chunter:class:Comment''\<rparr>
          else if c = ''tags:mixin:Tagged'' \<and> n = ''labels''
          then Some \<lparr>attr_name = ''labels'', attr_type_class = core_class_Collection,
                      attr_type_of = ''tags:class:Label''\<rparr>
          else None),
      getAllAttributes = (\<lambda>c to.
          if c = ''task:class:Task''
          then [(''title'', \<lparr>attr_name = ''title'', attr_type_class = ''core:class:TypeString'',
                             attr_type_of = []\<rparr>),
                (''comments'', \<lparr>attr_name = ''comments'', attr_type_class = core_class_Collection,
                                attr_type_of = ''chunter:class:Comment''\<rparr>)]
          else if c = ''tags:mixin:Tagged''
          then [(''labels'', \<lparr>attr_name = ''labels'', attr_type_class = core_class_Collection,
                              attr_type_of = ''tags:class:Label''\<rparr>)]
          else if c = ''audit:mixin:Audited''
          then [(''entries'', \<lparr>attr_name = ''entries'', attr_type_class = core_class_Collection,
                               attr_type_of = ''audit:class:Entry''\<rparr>)]
          else []),
      getAncestors = (\<lambda>c. [c, ''core:class:Doc'']),
      getDescendants = (\<lambda>c. if c = ''task:class:Task'' then [c, ''tags:mixin:Tagged''] else [c]),
      getClass = (\<lambda>c.
          if c = ''task:class:Task''
          then Some \<lparr>cls_kind = CLASS, cls_domain = Some ''task'',
                      cls_collectDocs = Some ''task:function:RelatedTodos''\<rparr>
          else if c = ''tags:mixin:Tagged'' \<or> c = ''audit:mixin:Audited''
          then Some \<lparr>cls_kind = MIXIN, cls_domain = None, cls_collectDocs = None\<rparr>
          else if c = ''audit:class:Entry''
          then Some \<lparr>cls_kind = CLASS, cls_domain = Some ''audit'', cls_collectDocs = None\<rparr>
          else if c = ''chunter:class:Comment''
          then Some \<lparr>cls_kind = CLASS, cls_domain = Some ''chunter'', cls_collectDocs = None\<rparr>
          else if c = ''tags:class:Label''
          then Some \<lparr>cls_kind = CLASS, cls_domain = Some ''tags'', cls_collectDocs = None\<rparr>
          else if c = ''task:class:Todo''
          then Some \<lparr>cls_kind = CLASS, cls_domain = Some ''task'', cls_collectDocs = None\<rparr>
          else None),
      hasMixin = (\<lambda>d m. m \<in> set (doc_mixins d))\<rparr>"

definition exampleDoc :: "ref \<Rightarrow> ref \<Rightarrow> ref \<Rightarrow> ref \<Rightarrow> string \<Rightarrow> ref list \<Rightarrow> doc" where
  "exampleDoc i cls parent parentClass coll ms =
     \<lparr>doc_id = i, doc_class = cls, doc_space = ''sp'', doc_modifiedBy = ''user1'',
      attachedTo = parent, attachedToClass = parentClass, collection = coll, doc_mixins = ms\<rparr>"

definition taskA :: doc where
  "taskA = exampleDoc ''A'' ''task:class:Task'' [] [] [] [''tags:mixin:Tagged'', ''audit:mixin:Audited'']"

definition taskP :: doc where
  "taskP = exampleDoc ''P'' ''task:class:Task'' [] [] [] []"

definition commentB :: doc where
  "commentB = exampleDoc ''B'' ''chunter:class:Comment'' ''A'' ''task:class:Task'' ''comments'' []"

definition labelL :: doc where
  "labelL = exampleDoc ''L'' ''tags:class:Label'' ''A'' ''tags:mixin:Tagged'' ''labels'' []"

definition todoT :: doc where
  "todoT = exampleDoc ''T'' ''task:class:Todo'' ''A'' [] [] []"

definition entryE :: doc where
  "entryE = exampleDoc ''E'' ''audit:class:Entry'' ''A'' ''audit:mixin:Audited'' ''entries'' []"

definition exampleDb :: "doc list" where
  "exampleDb = [taskP, commentB, labelL, todoT, entryE]"

text \<open>The in-memory adapter: a store is the list of its documents.\<close>

fun exampleApply :: "doc list \<Rightarrow> tx \<Rightarrow> doc list" where
  "exampleApply db (TxRemoveDoc h) = filter (\<lambda>d. doc_id d \<noteq> objectId h) db"
| "exampleApply db t = db"

definition exampleMatches :: "ref \<Rightarrow> query \<Rightarrow> doc \<Rightarrow> bool" where
  "exampleMatches cls q d =
     (case q of
        ById i \<Rightarrow> doc_id d = i
      | ByAttachedTo p \<Rightarrow> doc_class d = cls \<and> attachedTo d = p
      | ByAttachedToSpace p sp \<Rightarrow> doc_class d = cls \<and> attachedTo d = p \<and> doc_space d = sp
      | ClientQuery text \<Rightarrow> doc_class d = cls)"

definition exampleAdapter :: "doc list adapter" where
  "exampleAdapter =
     \<lparr>ad_load = (\<lambda>db d ids. filter (\<lambda>x. doc_id x \<in> set ids) db),
      ad_tx = (\<lambda>db part. (foldl exampleApply db part, map (\<lambda>t. AdapterResult (objectId (hdr t))) part)),
      ad_findAll = (\<lambda>db cls q limit.
         (case limit of None \<Rightarrow> filter (exampleMatches cls q) db
          | Some n \<Rightarrow> take n (filter (exampleMatches cls q) db)))\<rparr>"

definition exampleEnv :: "doc list env" where
  "exampleEnv =
     \<lparr>hier = exampleHierarchy,
      domains = (\<lambda>d. None),
      defaultAdapter = ''mem'',
      adapters = (\<lambda>n. if n = ''mem'' then Some exampleAdapter else None),
      getResource = (\<lambda>r fa d. fa ''task:class:Todo'' (ByAttachedTo (doc_id d)) None),
      triggers_apply = (\<lambda>fa removed txes. Inr []),
      Date_now = 100\<rparr>"

definition exampleWorld :: "doc list \<Rightarrow> doc list world" where
  "exampleWorld db = \<lparr>w_db = db, removedMap = (\<lambda>i. None), calls = []\<rparr>"

definition hdrOf :: "ref \<Rightarrow> ref \<Rightarrow> txhdr" where
  "hdrOf i cls = \<lparr>tx_space = ''core:space:Tx'', modifiedBy = ''user1'', modifiedOn = 10,
     objectId = i, objectClass = cls, objectSpace = ''sp''\<rparr>"

definition moveTo :: "ref \<Rightarrow> ops" where
  "moveTo parent = \<lparr>op_attachedTo = Some parent, op_attachedToClass = None, op_collection = None,
     op_space = None, op_inc = []\<rparr>"

definition reparentTx :: "ref \<Rightarrow> ref \<Rightarrow> tx" where
  "reparentTx old new =
     TxCollectionCUD (hdrOf old ''task:class:Task'') ''comments''
       (TxUpdateDoc (hdrOf ''B'' ''chunter:class:Comment'') (moveTo new))"

text \<open>A backup with a legacy snapshot followed by a line-oriented one.\<close>

definition utf16 :: "string \<Rightarrow> jsString" where
  "utf16 s = map of_char s"

definition exampleChanges :: snapshot where
  "exampleChanges = \<lparr>sn_added = [(utf16 ''c'', utf16 ''h3'')], sn_updated = [(utf16 ''a'', utf16 ''h4'')],
     sn_removed = [utf16 ''b'']\<rparr>"

definition exampleLoadText :: "string \<Rightarrow> js_error + jsString" where
  "exampleLoadText name =
     (if name = ''task.json.gz'' then Inr (utf16 ''legacy'')
      else if name = ''task-1.snp.gz''
      then Inr (utf16 ''1'' @ [10] @ utf16 ''c;h3'' @ [10]
                @ utf16 ''1'' @ [10] @ utf16 ''a;h4'' @ [10]
                @ utf16 ''1'' @ [10] @ utf16 ''b'' @ [10])
      else Inl (Error ''no such file''))"

definition exampleParseV6 :: "jsString \<Rightarrow> js_error + snapshotV6" where
  "exampleParseV6 text =
     (if text = utf16 ''legacy''
      then Inr \<lparr>v6_added = [(utf16 ''a'', utf16 ''h1''), (utf16 ''b'', utf16 ''h2'')], v6_updated = [],
                 v6_removed = []\<rparr>
      else Inl (Error ''Unexpected token''))"

definition snap1 :: backupSnapshot where
  "snap1 = \<lparr>bs_domains = (\<lambda>d. if d = ''task''
                then Some \<lparr>dd_snapshot = Some ''task.json.gz'', dd_snapshots = None\<rparr> else None),
            bs_date = 10\<rparr>"

definition snap2 :: backupSnapshot where
  "snap2 = \<lparr>bs_domains = (\<lambda>d. if d = ''task''
                then Some \<lparr>dd_snapshot = None, dd_snapshots = Some [''task-1.snp.gz'']\<rparr>
                else None),
            bs_date = 20\<rparr>"

text \<open>A snapshot one of whose files is lost.\<close>

definition snap3 :: backupSnapshot where
  "snap3 = \<lparr>bs_domains = (\<lambda>d. if d = ''task''
                then Some \<lparr>dd_snapshot = None, dd_snapshots = Some [''lost.snp.gz'', ''task-1.snp.gz'']\<rparr>
                else None),
            bs_date = 30\<rparr>"



text \<open>
  An apply-if on the scope \<open>issue-counter\<close> whose \<open>match\<close> names a class that
  \<open>findAll\<close> cannot serve, and a \<open>findAll\<close> that throws for that class as
  \<open>this.findAll\<close> does when the hierarchy has no domain for it.
\<close>

definition emptyScopes :: scopeState where
  "emptyScopes = \<lparr>scopes = (\<lambda>s. None), resolved = [], nextPromise = 0\<rparr>"

definition applyIfMissing :: tx where
  "applyIfMissing =
     TxApplyIf (hdrOf [] []) ''issue-counter'' [(''unknown:class:Missing'', ClientQuery ''{}'')] []
       [TxCreateDoc (hdrOf ''N'' ''task:class:Task'')]"

definition applyIfFine :: tx where
  "applyIfFine =
     TxApplyIf (hdrOf [] []) ''issue-counter'' [(''task:class:Task'', ClientQuery ''{}'')] []
       [TxCreateDoc (hdrOf ''N'' ''task:class:Task'')]"

definition exampleFindAll :: findAllFn where
  "exampleFindAll c q limit =
     (if c = ''unknown:class:Missing'' then Inl (Error ''domain not found: unknown:class:Missing'')
      else findAll exampleEnv exampleDb c q limit)"

definition exampleFindDomain :: "ref \<Rightarrow> domain option" where
  "exampleFindDomain c = Some (getDomain exampleHierarchy c)"

definition exampleBatch :: "tx list" where
  "exampleBatch =
     [TxCreateDoc (hdrOf ''P'' ''task:class:Task''),
      TxOther ''core:class:TxWorkspaceEvent'' (hdrOf [] []),
      TxUpdateDoc (hdrOf ''A'' ''task:class:Task'') exampleOps,
      TxCollectionCUD (hdrOf ''A'' ''task:class:Task'') ''comments''
        (TxRemoveDoc (hdrOf ''B'' ''chunter:class:Comment'')),
      TxRemoveDoc (hdrOf ''A'' ''task:class:Task'')]"

lemmas example_defs =
  exampleEnv_def exampleHierarchy_def exampleAdapter_def exampleWorld_def hdrOf_def
  exampleOps_def exampleHdr_def taskA_def taskP_def commentB_def labelL_def todoT_def
  entryE_def exampleDb_def moveTo_def reparentTx_def
  exampleDoc_def exampleMatches_def core_class_defs core_class_Collection_def
  core_class_AttachedDoc_def core_space_DerivedTx_def DOMAIN_MODEL_def

section \<open>Facts about the ledger\<close>

lemma indexOfFrom_absent: "x \<notin> set xs \<Longrightarrow> indexOfFrom i xs x = -1"
  by (induction xs arbitrary: i) auto

lemma indexOfFrom_first:
  "p < length xs \<Longrightarrow> xs ! p = x \<Longrightarrow> (\<forall>q<p. xs ! q \<noteq> x) \<Longrightarrow> indexOfFrom i xs x = i + int p"
proof (induction xs arbitrary: i p)
  case Nil
  then show ?case by simp
next
  case (Cons y ys)
  show ?case
  proof (cases p)
    case 0
    with Cons.prems show ?thesis by simp
  next
    case (Suc p')
    from Cons.prems Suc have ne: "y \<noteq> x" by auto
    from Cons.prems Suc have a: "p' < length ys" and b: "ys ! p' = x" by auto
    from Cons.prems Suc have c: "\<forall>q<p'. ys ! q \<noteq> x" by auto
    from Cons.IH [OF a b c, of "i + 1"] ne Suc show ?thesis by simp
  qed
qed

lemma distinct_first_occurrence:
  "distinct xs \<Longrightarrow> p < length xs \<Longrightarrow> xs ! p = x \<Longrightarrow> \<forall>q<p. xs ! q \<noteq> x"
  by (auto simp: distinct_conv_nth)

text \<open>
  C5. \<open>loadModel\<close> called with a hash: when the hash stands at position \<open>p\<close> of the
  chain (\<open>indexOf\<close> finds the first such position, the only one in a chain without
  repeated hashes), the answer is \<open>full: false\<close>, the chain's last element, and the model
  transactions after position \<open>p\<close>; when the hash is not in the chain, the answer is
  \<open>full: true\<close>, the chain's last element, and the whole model list.
\<close>

theorem loadModel_with_hash:
  "(p < length (hashes st) \<and> hashes st ! p = h \<and> (\<forall>q<p. hashes st ! q \<noteq> h) \<longrightarrow>
      loadModel st lastModelTx (Some h) =
        LoadModelResponse False (lastHash (hashes st)) (drop (p + 1) (model st)))
   \<and> (h \<notin> set (hashes st) \<longrightarrow>
      loadModel st lastModelTx (Some h) =
        LoadModelResponse True (lastHash (hashes st)) (model st))"
proof (intro conjI impI)
  assume "p < length (hashes st) \<and> hashes st ! p = h \<and> (\<forall>q<p. hashes st ! q \<noteq> h)"
  then have "indexOf (hashes st) h = int p"
    using indexOfFrom_first [of p "hashes st" h 0] by (simp add: indexOf_def)
  then show "loadModel st lastModelTx (Some h) =
      LoadModelResponse False (lastHash (hashes st)) (drop (p + 1) (model st))"
    by (simp add: loadModel_def nat_add_distrib)
next
  assume "h \<notin> set (hashes st)"
  then have "indexOf (hashes st) h = -1"
    by (simp add: indexOf_def indexOfFrom_absent)
  then show "loadModel st lastModelTx (Some h) =
      LoadModelResponse True (lastHash (hashes st)) (model st)"
    by (simp add: loadModel_def)
qed

theorem loadModel_with_hash_witness:
  "loadModel \<lparr>model = [TxRemoveDoc exampleHdr, TxCreateDoc exampleHdr, TxMixin exampleHdr ''m'' exampleOps],
       hashes = [''h0'', ''h1'', ''h2'']\<rparr> 0 (Some ''h1'')
     = LoadModelResponse False (Some ''h2'') [TxMixin exampleHdr ''m'' exampleOps]
   \<and> loadModel \<lparr>model = [TxRemoveDoc exampleHdr, TxCreateDoc exampleHdr, TxMixin exampleHdr ''m'' exampleOps],
       hashes = [''h0'', ''h1'', ''h2'']\<rparr> 0 (Some ''stale'')
     = LoadModelResponse True (Some ''h2'')
         [TxRemoveDoc exampleHdr, TxCreateDoc exampleHdr, TxMixin exampleHdr ''m'' exampleOps]"
  using loadModel_with_hash [of 1
      "\<lparr>model = [TxRemoveDoc exampleHdr, TxCreateDoc exampleHdr, TxMixin exampleHdr ''m'' exampleOps],
        hashes = [''h0'', ''h1'', ''h2'']\<rparr>" "''h1''" 0]
    loadModel_with_hash [of 1
      "\<lparr>model = [TxRemoveDoc exampleHdr, TxCreateDoc exampleHdr, TxMixin exampleHdr ''m'' exampleOps],
        hashes = [''h0'', ''h1'', ''h2'']\<rparr>" "''stale''" 0]
  by (simp add: lastHash_def)

subsection \<open>The hash chain\<close>

lemma hashChain_length: "length (hashChain sha1 stringify prev m) = length m"
  by (induction m arbitrary: prev) (auto simp: Let_def)

lemma hashChain_nth:
  "i < length m \<Longrightarrow>
   hashChain sha1 stringify prev m ! i =
     sha1 ((if i = 0 then prev else hashChain sha1 stringify prev m ! (i - 1)) @ stringify (m ! i))"
proof (induction m arbitrary: prev i)
  case Nil
  then show ?case by simp
next
  case (Cons t rest)
  show ?case
  proof (cases i)
    case 0
    then show ?thesis by (simp add: Let_def)
  next
    case (Suc j)
    with Cons.prems have j: "j < length rest" by simp
    from Cons.IH [OF j, of "sha1 (prev @ stringify t)"] Suc show ?thesis
      by (cases j) (simp_all add: Let_def)
  qed
qed

lemma hashChain_snoc:
  "hashChain sha1 stringify prev (m @ [t]) =
     hashChain sha1 stringify prev m @
       [sha1 ((if m = [] then prev else last (hashChain sha1 stringify prev m)) @ stringify t)]"
proof (induction m arbitrary: prev)
  case Nil
  then show ?case by (simp add: Let_def)
next
  case (Cons u rest)
  have "hashChain sha1 stringify (sha1 (prev @ stringify u)) rest = [] \<longleftrightarrow> rest = []"
    using hashChain_length [of sha1 stringify "sha1 (prev @ stringify u)" rest] by auto
  with Cons show ?case by (simp add: Let_def)
qed

lemma newStorage_chain:
  "model (newStorage sha1 stringify m) = m \<and>
   length (hashes (newStorage sha1 stringify m)) = length m \<and>
   (\<forall>i<length m. hashes (newStorage sha1 stringify m) ! i =
      sha1 ((if i = 0 then [] else hashes (newStorage sha1 stringify m) ! (i - 1)) @ stringify (m ! i)))"
  using hashChain_nth [of _ m sha1 stringify "[]"]
  by (simp add: newStorage_def setModel_def hashChain_length)

lemma addModelTx_nonempty:
  "hashes st \<noteq> [] \<Longrightarrow>
   addModelTx sha1 stringify st t =
     (st\<lparr>model := model st @ [t],
         hashes := hashes st @ [sha1 (last (hashes st) @ stringify t)]\<rparr>, None)"
  by (simp add: addModelTx_def lastHash_def)

lemma addModelTx_newStorage:
  "m \<noteq> [] \<Longrightarrow>
   addModelTx sha1 stringify (newStorage sha1 stringify m) t = (newStorage sha1 stringify (m @ [t]), None)"
proof -
  assume m: "m \<noteq> []"
  then have ne: "hashChain sha1 stringify [] m \<noteq> []"
    using hashChain_length [of sha1 stringify "[]" m] by auto
  show ?thesis
    using m ne
    by (simp add: addModelTx_def lastHash_def newStorage_def setModel_def hashChain_snoc)
qed

text \<open>
  C6. The chain of the initial model list is \<open>hash[i] = SHA1(hash[i-1] || serialize(tx[i]))\<close>
  with \<open>hash[-1] = ""\<close> (\<open>newStorage_chain\<close>), and \<open>addModelTx\<close> on a non-empty chain
  appends one element to the log and one to the chain (\<open>addModelTx_nonempty\<close>). On the
  empty chain of an empty initial model, \<open>addModelTx\<close> pushes the transaction to the log,
  reads \<open>this.hashes[-1]\<close>, which is \<open>undefined\<close>, and throws: the log has grown by one
  element and the chain by none.
\<close>

theorem addModelTx_empty_model:
  "addModelTx sha1 stringify (newStorage sha1 stringify []) t
     = (\<lparr>model = [t], hashes = []\<rparr>, Some TypeError)"
  by (simp add: addModelTx_def newStorage_def setModel_def lastHash_def)

section \<open>Facts about the router\<close>

lemma adapterTxCalls_append: "adapterTxCalls (xs @ ys) = adapterTxCalls xs @ adapterTxCalls ys"
  by (induction xs rule: adapterTxCalls.induct) auto

lemma errorLogs_append: "errorLogs (xs @ ys) = errorLogs xs @ errorLogs ys"
  by (induction xs rule: errorLogs.induct) auto

lemma adapterTxCalls_LiveQuery: "adapterTxCalls (map LiveQueryTx p) = []"
  by (induction p) auto

lemma errorLogs_LiveQuery: "errorLogs (map LiveQueryTx p) = []"
  by (induction p) auto

lemma processPart_calls:
  "processPart env w part d result = (w', Inr (result', part')) \<Longrightarrow>
   part' = [] \<and>
   adapterTxCalls (calls w') = adapterTxCalls (calls w) @ (if part = [] then [] else [(d, part)]) \<and>
   errorLogs (calls w') = errorLogs (calls w)"
proof (cases "part = []")
  case True
  assume "processPart env w part d result = (w', Inr (result', part'))"
  with True show ?thesis by (simp add: processPart_def)
next
  case False
  assume a: "processPart env w part d result = (w', Inr (result', part'))"
  with False obtain ad where ga: "getAdapter env d = Inr ad"
    by (cases "getAdapter env d") (simp_all add: processPart_def)
  from a False ga show ?thesis
    by (auto simp: processPart_def Let_def adapterTxCalls_append errorLogs_append
        adapterTxCalls_LiveQuery errorLogs_LiveQuery)
qed


lemma routeLoop_Nil:
  "routeLoop env w part d result [] = (w', Inr res) \<Longrightarrow>
   \<exists>p1. processPart env w part d result = (w', Inr (res, p1))"
  by (cases "processPart env w part d result") (auto simp: routeLoop.simps split: sum.splits)

lemma routeLoop_Cons_skip:
  "\<not> supported env t \<Longrightarrow>
   routeLoop env w part d result (t # txes) =
     routeLoop env (w\<lparr>calls := calls w @ [CtxError t]\<rparr>) part d result txes"
  by (simp add: supported_def)

lemma routeLoop_Cons_same:
  "supported env t \<Longrightarrow> \<not> (part \<noteq> [] \<and> d \<noteq> txDomain env (extractTx t)) \<Longrightarrow>
   routeLoop env w part d result (t # txes) =
     routeLoop env w (part @ [extractTx t]) (txDomain env (extractTx t)) result txes"
  by (auto simp add: supported_def txDomain_def Let_def)

lemma routeLoop_Cons_split:
  "supported env t \<Longrightarrow> part \<noteq> [] \<Longrightarrow> d \<noteq> txDomain env (extractTx t) \<Longrightarrow>
   routeLoop env w part d result (t # txes) =
     (case processPart env w part d result of
        (w', Inl e) \<Rightarrow> (w', Inl e)
      | (w', Inr (result', part')) \<Rightarrow>
          routeLoop env w' (part' @ [extractTx t]) (txDomain env (extractTx t)) result' txes)"
  unfolding supported_def txDomain_def by (simp add: Let_def)

declare routeLoop.simps [simp del]

lemma routeLoop_calls:
  "routeLoop env w part d result txes = (w', Inr res) \<Longrightarrow>
   adapterTxCalls (calls w') =
     adapterTxCalls (calls w) @ runsFrom (txDomain env) part d (map extractTx (filter (supported env) txes))
   \<and> errorLogs (calls w') = errorLogs (calls w) @ filter (\<lambda>t. \<not> supported env t) txes"
proof (induction txes arbitrary: w part d result)
  case Nil
  from routeLoop_Nil [OF Nil.prems] obtain p1 where
    pp: "processPart env w part d result = (w', Inr (res, p1))" by blast
  from processPart_calls [OF pp] show ?case by simp
next
  case (Cons t txes)
  show ?case
  proof (cases "supported env t")
    case False
    with Cons.prems have "routeLoop env (w\<lparr>calls := calls w @ [CtxError t]\<rparr>) part d result txes = (w', Inr res)"
      by (simp add: routeLoop_Cons_skip)
    from Cons.IH [OF this] False show ?thesis
      by (simp add: adapterTxCalls_append errorLogs_append)
  next
    case True
    let ?c = "extractTx t"
    let ?d = "txDomain env ?c"
    show ?thesis
    proof (cases "part \<noteq> [] \<and> d \<noteq> ?d")
      case split: True
      with Cons.prems True have
        "(case processPart env w part d result of
            (w', Inl e) \<Rightarrow> (w', Inl e)
          | (w', Inr (result', part')) \<Rightarrow> routeLoop env w' (part' @ [?c]) ?d result' txes) = (w', Inr res)"
        by (simp add: routeLoop_Cons_split)
      then obtain w1 r1 p1 where
        pp: "processPart env w part d result = (w1, Inr (r1, p1))" and
        rl: "routeLoop env w1 (p1 @ [?c]) ?d r1 txes = (w', Inr res)"
        by (cases "processPart env w part d result") (auto split: sum.splits)
      from processPart_calls [OF pp] split have
        p1: "p1 = []" and
        c1: "adapterTxCalls (calls w1) = adapterTxCalls (calls w) @ [(d, part)]" and
        e1: "errorLogs (calls w1) = errorLogs (calls w)" by auto
      from Cons.IH [OF rl] p1 c1 e1 True split show ?thesis
        by simp
    next
      case nosplit: False
      with Cons.prems True have rl: "routeLoop env w (part @ [?c]) ?d result txes = (w', Inr res)"
        by (simp add: routeLoop_Cons_same)
      from Cons.IH [OF rl] True nosplit show ?thesis
        by (cases "part = []") simp_all
    qed
  qed
qed

lemma runsFrom_concat: "concat (map snd (runsFrom key part d ts)) = part @ ts"
  by (induction ts arbitrary: part d) auto

lemma runsFrom_homogeneous:
  "\<forall>t\<in>set part. key t = d \<Longrightarrow> (k, run) \<in> set (runsFrom key part d ts) \<Longrightarrow>
   run \<noteq> [] \<and> (\<forall>t\<in>set run. key t = k)"
proof (induction ts arbitrary: part d)
  case Nil
  then show ?case by (auto split: if_splits)
next
  case (Cons t ts)
  show ?case
  proof (cases "part \<noteq> [] \<and> d \<noteq> key t")
    case True
    with Cons.prems have "(k, run) = (d, part) \<or> (k, run) \<in> set (runsFrom key [t] (key t) ts)"
      by simp
    then show ?thesis
    proof
      assume "(k, run) = (d, part)"
      with True Cons.prems(1) show ?thesis by auto
    next
      assume a: "(k, run) \<in> set (runsFrom key [t] (key t) ts)"
      have "\<forall>x\<in>set [t]. key x = key t" by simp
      from Cons.IH [OF this a] show ?thesis .
    qed
  next
    case False
    with Cons.prems have a: "(k, run) \<in> set (runsFrom key (part @ [t]) (key t) ts)"
      by simp
    from False Cons.prems(1) have "\<forall>x\<in>set (part @ [t]). key x = key t"
      by (cases "part = []") auto
    from Cons.IH [OF this a] show ?thesis .
  qed
qed

lemma runsFrom_hd:
  "part \<noteq> [] \<Longrightarrow> \<exists>run rest. runsFrom key part d ts = (d, run) # rest"
proof (induction ts arbitrary: part d)
  case Nil
  then show ?case by simp
next
  case (Cons t ts)
  show ?case
  proof (cases "d \<noteq> key t")
    case True
    with Cons.prems show ?thesis by simp
  next
    case False
    have "part @ [t] \<noteq> []" by simp
    from Cons.IH [OF this, of "key t"] False Cons.prems show ?thesis by simp
  qed
qed

lemma runsFrom_distinct_adj: "distinct_adj (map fst (runsFrom key part d ts))"
proof (induction ts arbitrary: part d)
  case Nil
  then show ?case by simp
next
  case (Cons t ts)
  show ?case
  proof (cases "part \<noteq> [] \<and> d \<noteq> key t")
    case True
    obtain run rest where r: "runsFrom key [t] (key t) ts = (key t, run) # rest"
      using runsFrom_hd [of "[t]" key "key t" ts] by auto
    from Cons.IH [of "[t]" "key t"] r True show ?thesis by simp
  next
    case False
    then have "runsFrom key part d (t # ts) = runsFrom key (part @ [t]) (key t) ts"
      by auto
    with Cons.IH [of "part @ [t]" "key t"] show ?thesis by simp
  qed
qed

text \<open>
  C7. When \<open>routeTx\<close> returns, its \<open>adapter.tx\<close> calls, in order, are runs of the batch:
  concatenated they are the extracted transactions of the batch that derive from \<open>TxCUD\<close>,
  in batch order; each call is made with a non-empty run whose transactions all have the
  call's domain; two consecutive calls have different domains (a boundary exactly where
  the domain changes); and the transactions that do not derive from \<open>TxCUD\<close> are the ones
  logged as errors, the rest of the batch being routed all the same.
\<close>

theorem routeTx_runs:
  assumes "routeTx env w txes = (w', Inr res)" and "calls w = []"
  shows "concat (map snd (adapterTxCalls (calls w'))) = map extractTx (filter (supported env) txes)
    \<and> (\<forall>(d, part) \<in> set (adapterTxCalls (calls w')). part \<noteq> [] \<and> (\<forall>t\<in>set part. txDomain env t = d))
    \<and> (\<forall>i. Suc i < length (adapterTxCalls (calls w')) \<longrightarrow>
          fst (adapterTxCalls (calls w') ! i) \<noteq> fst (adapterTxCalls (calls w') ! Suc i))
    \<and> errorLogs (calls w') = filter (\<lambda>t. \<not> supported env t) txes"
proof -
  let ?ts = "map extractTx (filter (supported env) txes)"
  let ?runs = "runsFrom (txDomain env) [] [] ?ts"
  from assms routeLoop_calls [of env w "[]" "[]" "[]" txes w' res]
  have c: "adapterTxCalls (calls w') = ?runs"
    and e: "errorLogs (calls w') = filter (\<lambda>t. \<not> supported env t) txes"
    by (simp_all add: routeTx_def)
  have 1: "concat (map snd ?runs) = ?ts" by (simp add: runsFrom_concat)
  have 2: "\<forall>(d, part) \<in> set ?runs. part \<noteq> [] \<and> (\<forall>t\<in>set part. txDomain env t = d)"
    using runsFrom_homogeneous [of "[]" "txDomain env" "[]" _ _ ?ts] by auto
  have "distinct_adj (map fst ?runs)" by (rule runsFrom_distinct_adj)
  then have 3: "\<forall>i. Suc i < length ?runs \<longrightarrow> fst (?runs ! i) \<noteq> fst (?runs ! Suc i)"
    by (auto simp: distinct_adj_conv_nth)
  from 1 2 3 c e show ?thesis by simp
qed

theorem routeTx_runs_witness:
  "snd (routeTx exampleEnv (exampleWorld [taskA, commentB]) exampleBatch)
     = Inr [AdapterResult ''P'', AdapterResult ''A'', AdapterResult ''B'', AdapterResult ''A'']
   \<and> calls (exampleWorld [taskA, commentB]) = []
   \<and> concat (map snd (adapterTxCalls (calls (fst (routeTx exampleEnv (exampleWorld [taskA, commentB]) exampleBatch)))))
     = [TxCreateDoc (hdrOf ''P'' ''task:class:Task''),
        TxUpdateDoc (hdrOf ''A'' ''task:class:Task'') exampleOps,
        TxRemoveDoc (hdrOf ''B'' ''chunter:class:Comment''),
        TxRemoveDoc (hdrOf ''A'' ''task:class:Task'')]
   \<and> errorLogs (calls (fst (routeTx exampleEnv (exampleWorld [taskA, commentB]) exampleBatch)))
     = [TxOther ''core:class:TxWorkspaceEvent'' (hdrOf [] [])]"
proof -
  let ?r = "routeTx exampleEnv (exampleWorld [taskA, commentB]) exampleBatch"
  have r: "snd ?r = Inr [AdapterResult ''P'', AdapterResult ''A'', AdapterResult ''B'', AdapterResult ''A'']"
    by (simp add: routeTx_def routeLoop.simps processPart_def getAdapter_def exampleBatch_def
        example_defs Let_def)
  then have eq: "?r = (fst ?r, Inr [AdapterResult ''P'', AdapterResult ''A'', AdapterResult ''B'', AdapterResult ''A''])"
    by (cases ?r) simp
  have c: "calls (exampleWorld [taskA, commentB]) = []"
    by (simp add: exampleWorld_def)
  have f: "map extractTx (filter (supported exampleEnv) exampleBatch)
      = [TxCreateDoc (hdrOf ''P'' ''task:class:Task''),
         TxUpdateDoc (hdrOf ''A'' ''task:class:Task'') exampleOps,
         TxRemoveDoc (hdrOf ''B'' ''chunter:class:Comment''),
         TxRemoveDoc (hdrOf ''A'' ''task:class:Task'')]"
    by (simp add: supported_def exampleBatch_def exampleEnv_def exampleHierarchy_def core_class_defs)
  have g: "filter (\<lambda>t. \<not> supported exampleEnv t) exampleBatch
      = [TxOther ''core:class:TxWorkspaceEvent'' (hdrOf [] [])]"
    by (simp add: supported_def exampleBatch_def exampleEnv_def exampleHierarchy_def core_class_defs)
  from routeTx_runs [OF eq c] have
    "concat (map snd (adapterTxCalls (calls (fst ?r)))) = map extractTx (filter (supported exampleEnv) exampleBatch)"
    and "errorLogs (calls (fst ?r)) = filter (\<lambda>t. \<not> supported exampleEnv t) exampleBatch"
    by blast+
  with r c f g show ?thesis by (simp only:) 
qed

section \<open>Facts about cascading removal\<close>

lemma bindE_Inr: "bindE m f = Inr y \<longleftrightarrow> (\<exists>x. m = Inr x \<and> f x = Inr y)"
  by (cases m) (simp_all add: bindE_def)

lemma deleteObject_fst: "fst (deleteObject h now d removed) = [removeTxOf h now d]"
  by (simp add: deleteObject_def removeTxOf_def createTxCollectionCUD_def createTxRemoveDoc_def Let_def)

lemma deleteObject_snd: "snd (deleteObject h now d removed) = removed(doc_id d \<mapsto> d)"
  by (simp add: deleteObject_def Let_def)

lemma deleteObjects_fst: "fst (deleteObjects h now ds removed) = map (removeTxOf h now) ds"
  by (induction ds arbitrary: removed) (simp_all add: Let_def deleteObject_fst)

lemma deleteObjects_keeps: "removed x \<noteq> None \<Longrightarrow> snd (deleteObjects h now ds removed) x \<noteq> None"
  by (induction ds arbitrary: removed) (simp_all add: Let_def deleteObject_snd)

lemma deleteAttributes_Cons_coll:
  "isDerived h (attr_type_class (snd a)) core_class_Collection \<Longrightarrow>
   deleteAttributes h now fa oid (a # as) removed = Inr (r, removed') \<Longrightarrow>
   \<exists>docs r2. fa (attr_type_of (snd a)) (ByAttachedTo oid) None = Inr docs \<and>
     deleteAttributes h now fa oid as (snd (deleteObjects h now docs removed)) = Inr (r2, removed') \<and>
     r = map (removeTxOf h now) docs @ r2"
  by (auto simp: bindE_Inr Let_def deleteObjects_fst)

lemma deleteAttributes_keeps:
  "deleteAttributes h now fa oid as removed = Inr (r, removed') \<Longrightarrow>
   removed x \<noteq> None \<Longrightarrow> removed' x \<noteq> None"
proof (induction as arbitrary: removed r)
  case Nil
  then show ?case by simp
next
  case (Cons a as)
  show ?case
  proof (cases "isDerived h (attr_type_class (snd a)) core_class_Collection")
    case False
    with Cons.prems have "deleteAttributes h now fa oid as removed = Inr (r, removed')" by simp
    from Cons.IH [OF this] Cons.prems show ?thesis by simp
  next
    case True
    from deleteAttributes_Cons_coll [OF True Cons.prems(1)] obtain docs r2 where
      rest: "deleteAttributes h now fa oid as (snd (deleteObjects h now docs removed)) = Inr (r2, removed')"
      by blast
    from Cons.prems(2) have "snd (deleteObjects h now docs removed) x \<noteq> None"
      by (rule deleteObjects_keeps)
    from Cons.IH [OF rest this] show ?thesis .
  qed
qed

lemma deleteAttributes_sound:
  "deleteAttributes h now fa oid as removed = Inr (r, removed') \<Longrightarrow>
   a \<in> set as \<Longrightarrow> isDerived h (attr_type_class (snd a)) core_class_Collection \<Longrightarrow>
   \<exists>docs. fa (attr_type_of (snd a)) (ByAttachedTo oid) None = Inr docs \<and>
          (\<forall>d\<in>set docs. removeTxOf h now d \<in> set r)"
proof (induction as arbitrary: removed r)
  case Nil
  then show ?case by simp
next
  case (Cons b as)
  show ?case
  proof (cases "isDerived h (attr_type_class (snd b)) core_class_Collection")
    case False
    with Cons.prems have 1: "deleteAttributes h now fa oid as removed = Inr (r, removed')"
      and 2: "a \<in> set as" by auto
    from Cons.IH [OF 1 2 Cons.prems(3)] show ?thesis .
  next
    case True
    from deleteAttributes_Cons_coll [OF True Cons.prems(1)] obtain docs r2 where
      fa: "fa (attr_type_of (snd b)) (ByAttachedTo oid) None = Inr docs" and
      rest: "deleteAttributes h now fa oid as (snd (deleteObjects h now docs removed)) = Inr (r2, removed')" and
      r: "r = map (removeTxOf h now) docs @ r2"
      by blast
    show ?thesis
    proof (cases "a = b")
      case True
      with fa r show ?thesis by auto
    next
      case False
      with Cons.prems have "a \<in> set as" by simp
      from Cons.IH [OF rest this Cons.prems(3)] r show ?thesis by auto
    qed
  qed
qed

lemma deleteMixins_Cons:
  "deleteMixins h now fa object oid (m # ms) removed = Inr (r, removed') \<Longrightarrow>
   \<exists>r1 rm1 r2. deleteClassCollections h now fa m oid (Some (doc_class object)) removed = Inr (r1, rm1) \<and>
     deleteMixins h now fa object oid ms rm1 = Inr (r2, removed') \<and> r = r1 @ r2"
  by (auto simp: bindE_Inr)

lemma deleteMixins_keeps:
  "deleteMixins h now fa object oid ms removed = Inr (r, removed') \<Longrightarrow>
   removed x \<noteq> None \<Longrightarrow> removed' x \<noteq> None"
proof (induction ms arbitrary: removed r)
  case Nil
  then show ?case by simp
next
  case (Cons m ms)
  from deleteMixins_Cons [OF Cons.prems(1)] obtain r1 rm1 r2 where
    1: "deleteClassCollections h now fa m oid (Some (doc_class object)) removed = Inr (r1, rm1)" and
    2: "deleteMixins h now fa object oid ms rm1 = Inr (r2, removed')" by blast
  from 1 Cons.prems(2) have "rm1 x \<noteq> None"
    unfolding deleteClassCollections_def by (rule deleteAttributes_keeps)
  from Cons.IH [OF 2 this] show ?case .
qed

lemma deleteMixins_sound:
  "deleteMixins h now fa object oid ms removed = Inr (r, removed') \<Longrightarrow>
   m \<in> set ms \<Longrightarrow> a \<in> set (getAllAttributes h m (Some (doc_class object))) \<Longrightarrow>
   isDerived h (attr_type_class (snd a)) core_class_Collection \<Longrightarrow>
   \<exists>docs. fa (attr_type_of (snd a)) (ByAttachedTo oid) None = Inr docs \<and>
          (\<forall>d\<in>set docs. removeTxOf h now d \<in> set r)"
proof (induction ms arbitrary: removed r)
  case Nil
  then show ?case by simp
next
  case (Cons n ms)
  from deleteMixins_Cons [OF Cons.prems(1)] obtain r1 rm1 r2 where
    1: "deleteClassCollections h now fa n oid (Some (doc_class object)) removed = Inr (r1, rm1)" and
    2: "deleteMixins h now fa object oid ms rm1 = Inr (r2, removed')" and
    r: "r = r1 @ r2" by blast
  show ?case
  proof (cases "m = n")
    case True
    from 1 have "deleteAttributes h now fa oid (getAllAttributes h n (Some (doc_class object))) removed = Inr (r1, rm1)"
      by (simp add: deleteClassCollections_def)
    from deleteAttributes_sound [OF this, of a] Cons.prems(3,4) True obtain docs where
      "fa (attr_type_of (snd a)) (ByAttachedTo oid) None = Inr docs"
      "\<forall>d\<in>set docs. removeTxOf h now d \<in> set r1" by auto
    with r show ?thesis by auto
  next
    case False
    with Cons.prems have "m \<in> set ms" by simp
    from Cons.IH [OF 2 this Cons.prems(3,4)] r show ?thesis by auto
  qed
qed

lemma deleteRelatedDocuments_class:
  "deleteRelatedDocuments h resource now fa object removed = Inr (r, removed') \<Longrightarrow>
   \<exists>cls. getClass h (doc_class object) = Some cls"
  by (cases "getClass h (doc_class object)") (simp_all add: deleteRelatedDocuments_def)

lemma deleteRelatedDocuments_sound:
  "deleteRelatedDocuments h resource now fa object removed = Inr (r, removed') \<Longrightarrow>
   getClass h (doc_class object) = Some cls \<Longrightarrow> cls_collectDocs cls = Some res \<Longrightarrow>
   \<exists>docs. resource res fa object = Inr docs \<and> r = map (removeTxOf h now) docs \<and>
          removed' = snd (deleteObjects h now docs removed)"
proof -
  assume a: "deleteRelatedDocuments h resource now fa object removed = Inr (r, removed')"
    and c: "getClass h (doc_class object) = Some cls" and d: "cls_collectDocs cls = Some res"
  from a c d obtain docs where 1: "resource res fa object = Inr docs"
    and 2: "deleteObjects h now docs removed = (r, removed')"
    by (auto simp: deleteRelatedDocuments_def bindE_Inr)
  from 2 have "r = fst (deleteObjects h now docs removed)"
    and "removed' = snd (deleteObjects h now docs removed)" by simp_all
  with 1 show ?thesis by (simp add: deleteObjects_fst)
qed

lemma deleteRelatedDocuments_keeps:
  "deleteRelatedDocuments h resource now fa object removed = Inr (r, removed') \<Longrightarrow>
   removed x \<noteq> None \<Longrightarrow> removed' x \<noteq> None"
proof -
  assume a: "deleteRelatedDocuments h resource now fa object removed = Inr (r, removed')"
    and x: "removed x \<noteq> None"
  from deleteRelatedDocuments_class [OF a] obtain cls where c: "getClass h (doc_class object) = Some cls"
    by blast
  show ?thesis
  proof (cases "cls_collectDocs cls")
    case None
    with a c x show ?thesis by (simp add: deleteRelatedDocuments_def)
  next
    case (Some res)
    from deleteRelatedDocuments_sound [OF a c Some] obtain docs where
      "removed' = snd (deleteObjects h now docs removed)" by blast
    with x show ?thesis by (simp add: deleteObjects_keeps)
  qed
qed

lemma removeStep_skip:
  "\<not> isDerived h (tx_class (extractTx t)) core_class_TxRemoveDoc \<or> removed (objectId (hdr (extractTx t))) = None \<Longrightarrow>
   removeStep h resource now fa t removed = Inr ([], removed)"
  by (auto simp: removeStep_def Let_def)

lemma removeStep_remove:
  "isDerived h (tx_class (extractTx t)) core_class_TxRemoveDoc \<Longrightarrow>
   removed (objectId (hdr (extractTx t))) = Some object \<Longrightarrow>
   removeStep h resource now fa t removed = Inr (r, removed') \<Longrightarrow>
   \<exists>r1 rm1 mixins r2 rm2 r3.
     deleteClassCollections h now fa (doc_class object) (objectId (hdr (extractTx t))) None removed = Inr (r1, rm1) \<and>
     getMixins h (doc_class object) object = Inr mixins \<and>
     deleteMixins h now fa object (objectId (hdr (extractTx t))) mixins rm1 = Inr (r2, rm2) \<and>
     deleteRelatedDocuments h resource now fa object rm2 = Inr (r3, removed') \<and>
     r = r1 @ r2 @ r3"
  by (auto simp: removeStep_def Let_def bindE_Inr)

lemma removeStep_keeps:
  "removeStep h resource now fa t removed = Inr (r, removed') \<Longrightarrow>
   removed x \<noteq> None \<Longrightarrow> removed' x \<noteq> None"
proof -
  assume a: "removeStep h resource now fa t removed = Inr (r, removed')" and x: "removed x \<noteq> None"
  show ?thesis
  proof (cases "isDerived h (tx_class (extractTx t)) core_class_TxRemoveDoc \<and>
      removed (objectId (hdr (extractTx t))) \<noteq> None")
    case False
    then have "removeStep h resource now fa t removed = Inr ([], removed)"
      by (intro removeStep_skip) auto
    with a x show ?thesis by simp
  next
    case True
    then obtain object where o: "removed (objectId (hdr (extractTx t))) = Some object" by auto
    from removeStep_remove [OF _ o a] True obtain r1 rm1 mixins r2 rm2 r3 where
      1: "deleteClassCollections h now fa (doc_class object) (objectId (hdr (extractTx t))) None removed = Inr (r1, rm1)" and
      2: "deleteMixins h now fa object (objectId (hdr (extractTx t))) mixins rm1 = Inr (r2, rm2)" and
      3: "deleteRelatedDocuments h resource now fa object rm2 = Inr (r3, removed')" by blast
    from 1 x have "rm1 x \<noteq> None" unfolding deleteClassCollections_def by (rule deleteAttributes_keeps)
    from deleteMixins_keeps [OF 2 this] have "rm2 x \<noteq> None" .
    from deleteRelatedDocuments_keeps [OF 3 this] show ?thesis .
  qed
qed

lemma processRemove_Cons:
  "processRemove h resource now fa (t # txes) removed = Inr (r, removed') \<Longrightarrow>
   \<exists>r1 rm1 r2. removeStep h resource now fa t removed = Inr (r1, rm1) \<and>
     processRemove h resource now fa txes rm1 = Inr (r2, removed') \<and> r = r1 @ r2"
  by (auto simp: bindE_Inr)

lemma processRemove_keeps:
  "processRemove h resource now fa txes removed = Inr (r, removed') \<Longrightarrow>
   removed x \<noteq> None \<Longrightarrow> removed' x \<noteq> None"
proof (induction txes arbitrary: removed r)
  case Nil
  then show ?case by simp
next
  case (Cons t txes)
  from processRemove_Cons [OF Cons.prems(1)] obtain r1 rm1 r2 where
    1: "removeStep h resource now fa t removed = Inr (r1, rm1)" and
    2: "processRemove h resource now fa txes rm1 = Inr (r2, removed')" by blast
  from removeStep_keeps [OF 1 Cons.prems(2)] have "rm1 x \<noteq> None" .
  from Cons.IH [OF 2 this] show ?case .
qed

lemma processRemove_split:
  "processRemove h resource now fa (pre @ t # post) removed = Inr (r, removed') \<Longrightarrow>
   \<exists>r0 rm0 r1 rm1 r2.
     processRemove h resource now fa pre removed = Inr (r0, rm0) \<and>
     removeStep h resource now fa t rm0 = Inr (r1, rm1) \<and>
     processRemove h resource now fa post rm1 = Inr (r2, removed') \<and>
     r = r0 @ r1 @ r2"
proof (induction pre arbitrary: removed r)
  case Nil
  from processRemove_Cons [of h resource now fa t post removed r removed'] Nil show ?case by auto
next
  case (Cons p pre)
  from Cons.prems have "processRemove h resource now fa (p # (pre @ t # post)) removed = Inr (r, removed')"
    by simp
  from processRemove_Cons [OF this] obtain ra rma rb where
    1: "removeStep h resource now fa p removed = Inr (ra, rma)" and
    2: "processRemove h resource now fa (pre @ t # post) rma = Inr (rb, removed')" and
    r: "r = ra @ rb" by blast
  from Cons.IH [OF 2] obtain r0 rm0 r1 rm1 r2 where
    a: "processRemove h resource now fa pre rma = Inr (r0, rm0)" and
    b: "removeStep h resource now fa t rm0 = Inr (r1, rm1)" and
    c: "processRemove h resource now fa post rm1 = Inr (r2, removed')" and
    d: "rb = r0 @ r1 @ r2" by blast
  from 1 a have "processRemove h resource now fa (p # pre) removed = Inr (ra @ r0, rm0)"
    by (simp add: bindE_def)
  with b c d r show ?case by auto
qed


lemma mixinFilter_set:
  "mixinFilter h object ms = Inr r \<Longrightarrow>
   set r = {m \<in> set ms. (\<exists>c. getClass h m = Some c \<and> cls_kind c = MIXIN) \<and> hasMixin h object m}"
proof (induction ms arbitrary: r)
  case Nil
  then show ?case by simp
next
  case (Cons m ms)
  from Cons.prems obtain c rest where c: "getClass h m = Some c"
    and rest: "mixinFilter h object ms = Inr rest"
    and r: "r = (if cls_kind c = MIXIN \<and> hasMixin h object m then m # rest else rest)"
    by (cases "getClass h m") (auto simp: bindE_Inr)
  from Cons.IH [OF rest] c r show ?case by auto
qed

text \<open>
  C1 (as amended). For a batch holding, at any position, a transaction \<open>t\<close> that extracts
  to a remove whose target is in \<open>removedMap\<close>: when \<open>processRemove\<close> returns, \<open>object\<close>
  being the entry of \<open>removedMap\<close> for the target when \<open>t\<close> is reached, the result holds
  the remove transaction of every attached document found for every \<open>Collection\<close>-typed
  attribute of the object's class, of every such attribute of every mixin that is a
  descendant of the object's parent class and is applied on the object, and of every
  document the class's \<open>ObjectDDParticipant\<close> collector returns; each is wrapped in a
  \<open>TxCollectionCUD\<close> when the removed document is an \<open>AttachedDoc\<close> and is a plain
  \<open>TxRemoveDoc\<close> otherwise (\<open>removeTxOf\<close>).
\<close>

theorem processRemove_cascade:
  assumes run: "processRemove h resource now fa (pre @ t # post) removed = Inr (result, removed')"
      and rem: "isDerived h (tx_class (extractTx t)) core_class_TxRemoveDoc"
      and present: "removed (objectId (hdr (extractTx t))) \<noteq> None"
  shows "\<exists>r0 rm0 object mixins.
      processRemove h resource now fa pre removed = Inr (r0, rm0)
    \<and> rm0 (objectId (hdr (extractTx t))) = Some object
    \<and> getMixins h (doc_class object) object = Inr mixins
    \<and> set mixins = {m \<in> set (getDescendants h (getParentClass h (doc_class object))).
          (\<exists>c. getClass h m = Some c \<and> cls_kind c = MIXIN) \<and> hasMixin h object m}
    \<and> (\<forall>a\<in>set (getAllAttributes h (doc_class object) None).
          isDerived h (attr_type_class (snd a)) core_class_Collection \<longrightarrow>
          (\<exists>docs. fa (attr_type_of (snd a)) (ByAttachedTo (objectId (hdr (extractTx t)))) None = Inr docs
             \<and> (\<forall>d\<in>set docs. removeTxOf h now d \<in> set result)))
    \<and> (\<forall>m\<in>set mixins. \<forall>a\<in>set (getAllAttributes h m (Some (doc_class object))).
          isDerived h (attr_type_class (snd a)) core_class_Collection \<longrightarrow>
          (\<exists>docs. fa (attr_type_of (snd a)) (ByAttachedTo (objectId (hdr (extractTx t)))) None = Inr docs
             \<and> (\<forall>d\<in>set docs. removeTxOf h now d \<in> set result)))
    \<and> (\<forall>cls res. getClass h (doc_class object) = Some cls \<and> cls_collectDocs cls = Some res \<longrightarrow>
          (\<exists>docs. resource res fa object = Inr docs
             \<and> (\<forall>d\<in>set docs. removeTxOf h now d \<in> set result)))"
proof -
  let ?oid = "objectId (hdr (extractTx t))"
  from processRemove_split [OF run] obtain r0 rm0 r1 rm1 r2 where
    pre: "processRemove h resource now fa pre removed = Inr (r0, rm0)" and
    step: "removeStep h resource now fa t rm0 = Inr (r1, rm1)" and
    result: "result = r0 @ r1 @ r2" by blast
  from processRemove_keeps [OF pre present] obtain object where obj: "rm0 ?oid = Some object"
    by auto
  from removeStep_remove [OF rem obj step] obtain ra rma mixins rb rmb rc where
    a: "deleteClassCollections h now fa (doc_class object) ?oid None rm0 = Inr (ra, rma)" and
    m: "getMixins h (doc_class object) object = Inr mixins" and
    b: "deleteMixins h now fa object ?oid mixins rma = Inr (rb, rmb)" and
    c: "deleteRelatedDocuments h resource now fa object rmb = Inr (rc, rm1)" and
    r1: "r1 = ra @ rb @ rc" by blast
  from m have ms: "set mixins = {m \<in> set (getDescendants h (getParentClass h (doc_class object))).
          (\<exists>c. getClass h m = Some c \<and> cls_kind c = MIXIN) \<and> hasMixin h object m}"
    unfolding getMixins_def by (rule mixinFilter_set)
  have A: "\<forall>a\<in>set (getAllAttributes h (doc_class object) None).
          isDerived h (attr_type_class (snd a)) core_class_Collection \<longrightarrow>
          (\<exists>docs. fa (attr_type_of (snd a)) (ByAttachedTo ?oid) None = Inr docs
             \<and> (\<forall>d\<in>set docs. removeTxOf h now d \<in> set result))"
  proof (intro ballI impI)
    fix x assume x: "x \<in> set (getAllAttributes h (doc_class object) None)"
      and coll: "isDerived h (attr_type_class (snd x)) core_class_Collection"
    from a have "deleteAttributes h now fa ?oid (getAllAttributes h (doc_class object) None) rm0 = Inr (ra, rma)"
      by (simp add: deleteClassCollections_def)
    from deleteAttributes_sound [OF this x coll] obtain docs where
      "fa (attr_type_of (snd x)) (ByAttachedTo ?oid) None = Inr docs"
      "\<forall>d\<in>set docs. removeTxOf h now d \<in> set ra" by blast
    with result r1 show "\<exists>docs. fa (attr_type_of (snd x)) (ByAttachedTo ?oid) None = Inr docs
             \<and> (\<forall>d\<in>set docs. removeTxOf h now d \<in> set result)" by auto
  qed
  have B: "\<forall>m\<in>set mixins. \<forall>a\<in>set (getAllAttributes h m (Some (doc_class object))).
          isDerived h (attr_type_class (snd a)) core_class_Collection \<longrightarrow>
          (\<exists>docs. fa (attr_type_of (snd a)) (ByAttachedTo ?oid) None = Inr docs
             \<and> (\<forall>d\<in>set docs. removeTxOf h now d \<in> set result))"
  proof (intro ballI impI)
    fix y x assume y: "y \<in> set mixins" and x: "x \<in> set (getAllAttributes h y (Some (doc_class object)))"
      and coll: "isDerived h (attr_type_class (snd x)) core_class_Collection"
    from deleteMixins_sound [OF b y x coll] obtain docs where
      "fa (attr_type_of (snd x)) (ByAttachedTo ?oid) None = Inr docs"
      "\<forall>d\<in>set docs. removeTxOf h now d \<in> set rb" by blast
    with result r1 show "\<exists>docs. fa (attr_type_of (snd x)) (ByAttachedTo ?oid) None = Inr docs
             \<and> (\<forall>d\<in>set docs. removeTxOf h now d \<in> set result)" by auto
  qed
  have C: "\<forall>cls res. getClass h (doc_class object) = Some cls \<and> cls_collectDocs cls = Some res \<longrightarrow>
          (\<exists>docs. resource res fa object = Inr docs
             \<and> (\<forall>d\<in>set docs. removeTxOf h now d \<in> set result))"
  proof (intro allI impI)
    fix cls res assume "getClass h (doc_class object) = Some cls \<and> cls_collectDocs cls = Some res"
    then have 1: "getClass h (doc_class object) = Some cls" and 2: "cls_collectDocs cls = Some res"
      by simp_all
    from deleteRelatedDocuments_sound [OF c 1 2] obtain docs where
      "resource res fa object = Inr docs" "rc = map (removeTxOf h now) docs" by blast
    with result r1 show "\<exists>docs. resource res fa object = Inr docs
             \<and> (\<forall>d\<in>set docs. removeTxOf h now d \<in> set result)" by auto
  qed
  from pre obj m ms A B C show ?thesis by blast
qed


theorem processRemove_cascade_witness:
  "isDerived exampleHierarchy (tx_class (extractTx (TxRemoveDoc (hdrOf ''A'' ''task:class:Task'')))) core_class_TxRemoveDoc
   \<and> [''A'' \<mapsto> taskA] (objectId (hdr (extractTx (TxRemoveDoc (hdrOf ''A'' ''task:class:Task''))))) = Some taskA
   \<and> (case processRemove exampleHierarchy (getResource exampleEnv) 100 (findAll exampleEnv exampleDb)
            [TxRemoveDoc (hdrOf ''A'' ''task:class:Task'')] [''A'' \<mapsto> taskA] of
         Inr (r, rm) \<Rightarrow>
           removeTxOf exampleHierarchy 100 commentB \<in> set r
           \<and> removeTxOf exampleHierarchy 100 labelL \<in> set r
           \<and> removeTxOf exampleHierarchy 100 todoT \<in> set r
       | Inl e \<Rightarrow> False)"
proof -
  let ?t = "TxRemoveDoc (hdrOf ''A'' ''task:class:Task'')"
  let ?h = exampleHierarchy
  let ?fa = "findAll exampleEnv exampleDb"
  let ?run = "processRemove ?h (getResource exampleEnv) 100 ?fa [?t] [''A'' \<mapsto> taskA]"
  have "case ?run of Inr (r, rm) \<Rightarrow> True | Inl e \<Rightarrow> False"
    by code_simp
  then obtain result rm where run: "?run = Inr (result, rm)"
    by (cases ?run) auto
  then have run': "processRemove ?h (getResource exampleEnv) 100 ?fa ([] @ ?t # []) [''A'' \<mapsto> taskA] = Inr (result, rm)"
    by simp
  have rem: "isDerived ?h (tx_class (extractTx ?t)) core_class_TxRemoveDoc"
    by code_simp
  have oid: "objectId (hdr (extractTx ?t)) = ''A''"
    by (simp add: hdrOf_def)
  have present: "[''A'' \<mapsto> taskA] (objectId (hdr (extractTx ?t))) \<noteq> None"
    by (simp add: hdrOf_def)
  from processRemove_cascade [OF run' rem present] obtain r0 rm0 object mixins where
    pre: "processRemove ?h (getResource exampleEnv) 100 ?fa [] [''A'' \<mapsto> taskA] = Inr (r0, rm0)" and
    obj: "rm0 (objectId (hdr (extractTx ?t))) = Some object" and
    ms: "set mixins = {m \<in> set (getDescendants ?h (getParentClass ?h (doc_class object))).
          (\<exists>c. getClass ?h m = Some c \<and> cls_kind c = MIXIN) \<and> hasMixin ?h object m}" and
    A: "\<forall>a\<in>set (getAllAttributes ?h (doc_class object) None).
          isDerived ?h (attr_type_class (snd a)) core_class_Collection \<longrightarrow>
          (\<exists>docs. ?fa (attr_type_of (snd a)) (ByAttachedTo (objectId (hdr (extractTx ?t)))) None = Inr docs
             \<and> (\<forall>d\<in>set docs. removeTxOf ?h 100 d \<in> set result))" and
    B: "\<forall>m\<in>set mixins. \<forall>a\<in>set (getAllAttributes ?h m (Some (doc_class object))).
          isDerived ?h (attr_type_class (snd a)) core_class_Collection \<longrightarrow>
          (\<exists>docs. ?fa (attr_type_of (snd a)) (ByAttachedTo (objectId (hdr (extractTx ?t)))) None = Inr docs
             \<and> (\<forall>d\<in>set docs. removeTxOf ?h 100 d \<in> set result))" and
    C: "\<forall>cls res. getClass ?h (doc_class object) = Some cls \<and> cls_collectDocs cls = Some res \<longrightarrow>
          (\<exists>docs. getResource exampleEnv res ?fa object = Inr docs
             \<and> (\<forall>d\<in>set docs. removeTxOf ?h 100 d \<in> set result))"
    by blast
  from pre obj have object: "object = taskA" by (auto simp: hdrOf_def)
  let ?comments = "(''comments'', \<lparr>attr_name = ''comments'', attr_type_class = core_class_Collection,
      attr_type_of = ''chunter:class:Comment''\<rparr>)"
  let ?labels = "(''labels'', \<lparr>attr_name = ''labels'', attr_type_class = core_class_Collection,
      attr_type_of = ''tags:class:Label''\<rparr>)"
  have a1: "?comments \<in> set (getAllAttributes ?h (doc_class taskA) None)"
    by code_simp
  have a2: "isDerived ?h (attr_type_class (snd ?comments)) core_class_Collection"
    by code_simp
  have a3: "?fa (attr_type_of (snd ?comments)) (ByAttachedTo ''A'') None = Inr [commentB]"
    by code_simp
  from A a1 a2 a3 object oid have c1: "removeTxOf ?h 100 commentB \<in> set result"
    by fastforce
  have "''tags:mixin:Tagged'' \<in> set (getDescendants ?h (getParentClass ?h (doc_class taskA)))
      \<and> map_option cls_kind (getClass ?h ''tags:mixin:Tagged'') = Some MIXIN
      \<and> hasMixin ?h taskA ''tags:mixin:Tagged''"
    by code_simp
  with ms object have m1: "''tags:mixin:Tagged'' \<in> set mixins"
    by auto
  have b1: "?labels \<in> set (getAllAttributes ?h ''tags:mixin:Tagged'' (Some (doc_class taskA)))"
    by code_simp
  have b2: "isDerived ?h (attr_type_class (snd ?labels)) core_class_Collection"
    by code_simp
  have b3: "?fa (attr_type_of (snd ?labels)) (ByAttachedTo ''A'') None = Inr [labelL]"
    by code_simp
  from B m1 b1 b2 b3 object oid have c2: "removeTxOf ?h 100 labelL \<in> set result"
    by fastforce
  have d1: "map_option cls_collectDocs (getClass ?h (doc_class taskA)) = Some (Some ''task:function:RelatedTodos'')"
    by code_simp
  then obtain cls where d2: "getClass ?h (doc_class taskA) = Some cls"
    and d3: "cls_collectDocs cls = Some ''task:function:RelatedTodos''" by auto
  have d4: "getResource exampleEnv ''task:function:RelatedTodos'' ?fa taskA = Inr [todoT]"
    by code_simp
  from C d2 d3 d4 object have c3: "removeTxOf ?h 100 todoT \<in> set result"
    by fastforce
  from rem oid run c1 c2 c3 show ?thesis by simp
qed

text \<open>
  The claim as written speaks of every mixin applied on the object. \<open>getMixins\<close> looks
  only among the descendants of the object's parent class: the sample task carries the
  mixin \<open>Audited\<close>, declared on \<open>core:class:Doc\<close>, whose \<open>entries\<close> collection holds an
  entry attached to the task, and \<open>processRemove\<close> returns no remove for that entry.
\<close>

theorem processRemove_mixin_outside_parent:
  "hasMixin exampleHierarchy taskA ''audit:mixin:Audited''
   \<and> map_option cls_kind (getClass exampleHierarchy ''audit:mixin:Audited'') = Some MIXIN
   \<and> getAllAttributes exampleHierarchy ''audit:mixin:Audited'' (Some ''task:class:Task'')
       = [(''entries'', \<lparr>attr_name = ''entries'', attr_type_class = core_class_Collection,
                          attr_type_of = ''audit:class:Entry''\<rparr>)]
   \<and> findAll exampleEnv exampleDb ''audit:class:Entry'' (ByAttachedTo ''A'') None = Inr [entryE]
   \<and> (case processRemove exampleHierarchy (getResource exampleEnv) 100 (findAll exampleEnv exampleDb)
            [TxRemoveDoc (hdrOf ''A'' ''task:class:Task'')] [''A'' \<mapsto> taskA] of
         Inr (r, rm) \<Rightarrow> removeTxOf exampleHierarchy 100 entryE \<notin> set r
       | Inl e \<Rightarrow> False)"
  by code_simp

section \<open>Facts about the collection counters\<close>

lemma first_Cons: "first (x # xs) = Some x"
  by (simp add: first_def)

lemma updateCollection_reparent:
  assumes dom: "getDomain h (objectClass colTx) \<noteq> DOMAIN_MODEL"
      and att: "op_attachedTo operations = Some newParent" and ne: "newParent \<noteq> objectId colTx"
      and old: "fa (objectClass colTx) (ById (objectId colTx)) (Some 1) = Inr (oldAttachedTo # olds)"
      and oattr: "findAttribute h (doc_class oldAttachedTo) coll = Some attr"
      and new: "fa (newParentClass colTx operations) (ById newParent) (Some 1) = Inr (newAttachedTo # news)"
      and nattr: "findAttribute h (newParentClass colTx operations) (newParentCollection coll operations) = Some newAttr"
  shows "updateCollection h fa (TxCollectionCUD colTx coll (TxUpdateDoc nh operations)) =
     Inr [getCollectionUpdateTx h (objectId colTx) (objectClass colTx) (modifiedBy colTx) (modifiedOn colTx)
            oldAttachedTo (incOps coll (-1)),
          getCollectionUpdateTx h (doc_id newAttachedTo) (doc_class newAttachedTo) (modifiedBy colTx)
            (modifiedOn colTx) newAttachedTo (incOps (newParentCollection coll operations) 1)]"
  using assms
  by (simp add: bindE_def first_Cons Let_def newParentClass_def newParentCollection_def)

lemma collectionStep_update:
  "getDomain h (objectClass colTx) \<noteq> DOMAIN_MODEL \<Longrightarrow>
   collectionStep h fa removed (TxCollectionCUD colTx coll (TxUpdateDoc nh operations)) =
     updateCollection h fa (TxCollectionCUD colTx coll (TxUpdateDoc nh operations))"
  by (cases "updateCollection h fa (TxCollectionCUD colTx coll (TxUpdateDoc nh operations))")
     (simp_all add: bindE_def core_class_defs del: updateCollection.simps)

lemma processCollection_split:
  "processCollection h fa removed (pre @ t # post) = Inr r \<Longrightarrow>
   \<exists>r1. collectionStep h fa removed t = Inr r1 \<and> set r1 \<subseteq> set r"
proof (induction pre arbitrary: r)
  case Nil
  then obtain x xa where "collectionStep h fa removed t = Inr x" "r = x @ xa"
    by (auto simp: bindE_Inr simp del: collectionStep.simps)
  then show ?case by auto
next
  case (Cons p pre)
  from Cons.prems obtain ra rb where
    "processCollection h fa removed (pre @ t # post) = Inr rb" and r: "r = ra @ rb"
    by (auto simp: bindE_Inr simp del: collectionStep.simps)
  from Cons.IH [OF this(1)] r show ?case by auto
qed

text \<open>
  C2 (as amended). For a \<open>TxCollectionCUD\<close> wrapping a \<open>TxUpdateDoc\<close> whose operations
  set \<open>attachedTo\<close> to another parent, its object class not in the model domain: when the
  old parent is found and its class has the collection attribute, and the new parent is
  found and the new parent's class has the new collection attribute, the pass emits a
  \<open>$inc\<close> by \<open>-1\<close> on the old parent's collection, which is a \<open>TxMixin\<close> when the
  transaction's object class is a mixin (its base class is another class) and a
  \<open>TxUpdateDoc\<close> otherwise, and a \<open>$inc\<close> by \<open>+1\<close> on the new parent's collection.
\<close>

theorem processCollection_reparent:
  assumes run: "processCollection h fa removed (pre @ TxCollectionCUD colTx coll (TxUpdateDoc nh operations) # post) = Inr result"
      and dom: "getDomain h (objectClass colTx) \<noteq> DOMAIN_MODEL"
      and att: "op_attachedTo operations = Some newParent" and ne: "newParent \<noteq> objectId colTx"
      and old: "fa (objectClass colTx) (ById (objectId colTx)) (Some 1) = Inr (oldAttachedTo # olds)"
      and oattr: "findAttribute h (doc_class oldAttachedTo) coll = Some attr"
      and new: "fa (newParentClass colTx operations) (ById newParent) (Some 1) = Inr (newAttachedTo # news)"
      and nattr: "findAttribute h (newParentClass colTx operations) (newParentCollection coll operations) = Some newAttr"
  shows "(if getBaseClass h (objectClass colTx) \<noteq> objectClass colTx
          then TxMixin \<lparr>tx_space = core_space_DerivedTx, modifiedBy = modifiedBy colTx,
                  modifiedOn = modifiedOn colTx, objectId = objectId colTx,
                  objectClass = doc_class oldAttachedTo, objectSpace = doc_space oldAttachedTo\<rparr>
                 (objectClass colTx) (incOps coll (-1))
          else TxUpdateDoc \<lparr>tx_space = core_space_DerivedTx, modifiedBy = modifiedBy colTx,
                  modifiedOn = modifiedOn colTx, objectId = objectId colTx,
                  objectClass = objectClass colTx, objectSpace = doc_space oldAttachedTo\<rparr>
                 (incOps coll (-1))) \<in> set result
     \<and> (\<exists>incTx\<in>set result.
           hdr incTx = \<lparr>tx_space = core_space_DerivedTx, modifiedBy = modifiedBy colTx,
                  modifiedOn = modifiedOn colTx, objectId = doc_id newAttachedTo,
                  objectClass = doc_class newAttachedTo, objectSpace = doc_space newAttachedTo\<rparr>
           \<and> updateOf incTx = Some (incOps (newParentCollection coll operations) 1))"
proof -
  let ?t = "TxCollectionCUD colTx coll (TxUpdateDoc nh operations)"
  let ?dec = "getCollectionUpdateTx h (objectId colTx) (objectClass colTx) (modifiedBy colTx) (modifiedOn colTx)
            oldAttachedTo (incOps coll (-1))"
  let ?inc = "getCollectionUpdateTx h (doc_id newAttachedTo) (doc_class newAttachedTo) (modifiedBy colTx)
            (modifiedOn colTx) newAttachedTo (incOps (newParentCollection coll operations) 1)"
  from processCollection_split [OF run] obtain r1 where
    step: "collectionStep h fa removed ?t = Inr r1" and sub: "set r1 \<subseteq> set result" by blast
  from step collectionStep_update [OF dom, of fa removed coll nh operations]
  have "updateCollection h fa ?t = Inr r1"
    by (simp del: collectionStep.simps updateCollection.simps)
  moreover have "updateCollection h fa ?t = Inr [?dec, ?inc]"
    using dom att ne old oattr new nattr by (rule updateCollection_reparent)
  ultimately have r1: "r1 = [?dec, ?inc]" by (simp del: updateCollection.simps)
  with sub have d: "?dec \<in> set result" and i: "?inc \<in> set result" by auto
  have i1: "hdr ?inc = \<lparr>tx_space = core_space_DerivedTx, modifiedBy = modifiedBy colTx,
                  modifiedOn = modifiedOn colTx, objectId = doc_id newAttachedTo,
                  objectClass = doc_class newAttachedTo, objectSpace = doc_space newAttachedTo\<rparr>"
    by (simp add: getCollectionUpdateTx_def createTxMixin_def createTxUpdateDoc_def factoryHdr_def)
  have i2: "updateOf ?inc = Some (incOps (newParentCollection coll operations) 1)"
    by (simp add: getCollectionUpdateTx_def createTxMixin_def createTxUpdateDoc_def)
  from d have "(if getBaseClass h (objectClass colTx) \<noteq> objectClass colTx
          then TxMixin \<lparr>tx_space = core_space_DerivedTx, modifiedBy = modifiedBy colTx,
                  modifiedOn = modifiedOn colTx, objectId = objectId colTx,
                  objectClass = doc_class oldAttachedTo, objectSpace = doc_space oldAttachedTo\<rparr>
                 (objectClass colTx) (incOps coll (-1))
          else TxUpdateDoc \<lparr>tx_space = core_space_DerivedTx, modifiedBy = modifiedBy colTx,
                  modifiedOn = modifiedOn colTx, objectId = objectId colTx,
                  objectClass = objectClass colTx, objectSpace = doc_space oldAttachedTo\<rparr>
                 (incOps coll (-1))) \<in> set result"
    by (cases "getBaseClass h (objectClass colTx) = objectClass colTx")
       (simp_all add: getCollectionUpdateTx_def createTxMixin_def createTxUpdateDoc_def factoryHdr_def)
  with i i1 i2 show ?thesis by blast
qed

theorem processCollection_reparent_witness:
  "op_attachedTo (moveTo ''P'') = Some ''P''
   \<and> findAll exampleEnv (taskA # exampleDb) ''task:class:Task'' (ById ''A'') (Some 1) = Inr [taskA]
   \<and> findAll exampleEnv (taskA # exampleDb) ''task:class:Task'' (ById ''P'') (Some 1) = Inr [taskP]
   \<and> (case processCollection exampleHierarchy (findAll exampleEnv (taskA # exampleDb)) (\<lambda>i. None)
            [reparentTx ''A'' ''P''] of
         Inr r \<Rightarrow>
           TxUpdateDoc \<lparr>tx_space = core_space_DerivedTx, modifiedBy = ''user1'', modifiedOn = 10,
               objectId = ''A'', objectClass = ''task:class:Task'', objectSpace = ''sp''\<rparr>
             (incOps ''comments'' (-1)) \<in> set r
           \<and> (\<exists>incTx\<in>set r.
                 hdr incTx = \<lparr>tx_space = core_space_DerivedTx, modifiedBy = ''user1'', modifiedOn = 10,
                     objectId = ''P'', objectClass = ''task:class:Task'', objectSpace = ''sp''\<rparr>
                 \<and> updateOf incTx = Some (incOps ''comments'' 1))
       | Inl e \<Rightarrow> False)"
proof -
  let ?h = exampleHierarchy
  let ?fa = "findAll exampleEnv (taskA # exampleDb)"
  let ?colTx = "hdrOf ''A'' ''task:class:Task''"
  let ?nh = "hdrOf ''B'' ''chunter:class:Comment''"
  let ?run = "processCollection ?h ?fa (\<lambda>i. None) [reparentTx ''A'' ''P'']"
  have "case ?run of Inr r \<Rightarrow> True | Inl e \<Rightarrow> False"
    by code_simp
  then obtain result where res: "?run = Inr result"
    by (cases ?run) auto
  then have run: "processCollection ?h ?fa (\<lambda>i. None)
      ([] @ TxCollectionCUD ?colTx ''comments'' (TxUpdateDoc ?nh (moveTo ''P'')) # []) = Inr result"
    by (simp add: reparentTx_def)
  have dom: "getDomain ?h (objectClass ?colTx) \<noteq> DOMAIN_MODEL"
    by code_simp
  have att: "op_attachedTo (moveTo ''P'') = Some ''P''"
    by (simp add: moveTo_def)
  have ne: "''P'' \<noteq> objectId ?colTx"
    by (simp add: hdrOf_def)
  have old: "?fa (objectClass ?colTx) (ById (objectId ?colTx)) (Some 1) = Inr (taskA # [])"
    by code_simp
  have oattr: "findAttribute ?h (doc_class taskA) ''comments''
      = Some \<lparr>attr_name = ''comments'', attr_type_class = core_class_Collection,
               attr_type_of = ''chunter:class:Comment''\<rparr>"
    by code_simp
  have new: "?fa (newParentClass ?colTx (moveTo ''P'')) (ById ''P'') (Some 1) = Inr (taskP # [])"
    by code_simp
  have nattr: "findAttribute ?h (newParentClass ?colTx (moveTo ''P'')) (newParentCollection ''comments'' (moveTo ''P''))
      = Some \<lparr>attr_name = ''comments'', attr_type_class = core_class_Collection,
               attr_type_of = ''chunter:class:Comment''\<rparr>"
    by code_simp
  have base: "getBaseClass ?h ''task:class:Task'' = ''task:class:Task''"
    by code_simp
  have vals: "modifiedBy ?colTx = ''user1''" "modifiedOn ?colTx = 10" "objectId ?colTx = ''A''"
    "objectClass ?colTx = ''task:class:Task''" "doc_space taskA = ''sp''" "doc_id taskP = ''P''"
    "doc_class taskP = ''task:class:Task''" "doc_space taskP = ''sp''"
    "newParentCollection ''comments'' (moveTo ''P'') = ''comments''"
    by (simp_all add: hdrOf_def taskA_def taskP_def exampleDoc_def newParentCollection_def moveTo_def)
  have o: "?fa ''task:class:Task'' (ById ''A'') (Some 1) = Inr [taskA]"
    and n: "?fa ''task:class:Task'' (ById ''P'') (Some 1) = Inr [taskP]"
    by code_simp+
  from processCollection_reparent [OF run dom att ne old oattr new nattr]
  have "TxUpdateDoc \<lparr>tx_space = core_space_DerivedTx, modifiedBy = ''user1'', modifiedOn = 10,
               objectId = ''A'', objectClass = ''task:class:Task'', objectSpace = ''sp''\<rparr>
             (incOps ''comments'' (-1)) \<in> set result
           \<and> (\<exists>incTx\<in>set result.
                 hdr incTx = \<lparr>tx_space = core_space_DerivedTx, modifiedBy = ''user1'', modifiedOn = 10,
                     objectId = ''P'', objectClass = ''task:class:Task'', objectSpace = ''sp''\<rparr>
                 \<and> updateOf incTx = Some (incOps ''comments'' 1))"
    unfolding vals by (simp add: base)
  with res att o n show ?thesis by simp
qed

text \<open>
  The claim as written promises both transactions for every such re-parenting. When the
  old parent is no longer in the store, \<open>updateCollection\<close> emits the increment on the
  new parent alone.
\<close>

theorem processCollection_old_parent_gone:
  "findAll exampleEnv exampleDb ''task:class:Task'' (ById ''A'') (Some 1) = Inr []
   \<and> processCollection exampleHierarchy (findAll exampleEnv exampleDb) (\<lambda>i. None) [reparentTx ''A'' ''P'']
     = Inr [TxUpdateDoc \<lparr>tx_space = core_space_DerivedTx, modifiedBy = ''user1'', modifiedOn = 10,
               objectId = ''P'', objectClass = ''task:class:Task'', objectSpace = ''sp''\<rparr>
             (incOps ''comments'' 1)]"
  by code_simp

section \<open>Facts about the backup digest\<close>

lemma map_of_mapSet: "map_of (mapSet k v m) = (map_of m)(k \<mapsto> v)"
  by (induction m) (auto simp: fun_eq_iff)

lemma map_of_mapDelete: "map_of (mapDelete k m) = (map_of m)(k := None)"
  by (induction m) (auto simp: mapDelete_def fun_eq_iff)

lemma map_of_fold_set:
  "map_of (fold (\<lambda>kv. mapSet (fst kv) (Some (snd kv))) es d)
     = fold (\<lambda>kv m. m(fst kv \<mapsto> Some (snd kv))) es (map_of d)"
  by (induction es arbitrary: d) (simp_all add: map_of_mapSet)

lemma map_of_fold_delete:
  "map_of (fold mapDelete ks d) = fold (\<lambda>k m. m(k := None)) ks (map_of d)"
  by (induction ks arbitrary: d) (simp_all add: map_of_mapDelete)

lemma applyV6_replay:
  "map_of (applyV6 c d) = replay_spec (v6_added c) (v6_updated c) (v6_removed c) (map_of d)"
  by (simp add: applyV6_def replay_spec_def map_of_fold_set map_of_fold_delete)

lemma splitOn_line:
  "c \<notin> set l \<Longrightarrow> splitOn c (l @ c # rest) = l # splitOn c rest"
  by (induction l) (auto split: list.splits)

lemma splitOn_none: "c \<notin> set l \<Longrightarrow> splitOn c l = [l]"
  by (induction l) (auto split: list.splits)

lemma splitOn_lines:
  "\<forall>l\<in>set ls. c \<notin> set l \<Longrightarrow> splitOn c (concat (map (\<lambda>l. l @ [c]) ls) @ rest) = ls @ splitOn c rest"
  by (induction ls) (simp_all add: splitOn_line)

lemma decimal_digits: "\<forall>c\<in>set (decimal n). 48 \<le> c \<and> c \<le> 57"
proof (induction n rule: decimal.induct)
  case (1 n)
  show ?case
  proof (cases "n < 10")
    case True
    then show ?thesis by (subst decimal.simps) simp
  next
    case False
    with 1 have "\<forall>c\<in>set (decimal (n div 10)). 48 \<le> c \<and> c \<le> 57" by simp
    moreover have "n mod 10 < 10" by simp
    ultimately show ?thesis using False by (subst decimal.simps) auto
  qed
qed

lemma decimal_nonempty: "decimal n \<noteq> []"
  by (subst decimal.simps) simp

lemma digitsFrom_snoc:
  "\<forall>c\<in>set xs. digit c \<noteq> None \<Longrightarrow>
   digitsFrom base digit acc (xs @ ys) = digitsFrom base digit (digitsFrom base digit acc xs) ys"
  by (induction xs arbitrary: acc) (auto split: option.splits)

lemma digitsFrom_decimal:
  "digitsFrom 10 decDigit acc (decimal n)
     = Some ((case acc of None \<Rightarrow> 0 | Some a \<Rightarrow> a) * 10 ^ length (decimal n) + n)"
proof (induction n arbitrary: acc rule: decimal.induct)
  case (1 n)
  show ?case
  proof (cases "n < 10")
    case True
    then show ?thesis by (subst (1 2) decimal.simps) (simp add: decDigit_def)
  next
    case False
    have d: "\<forall>c\<in>set (decimal (n div 10)). decDigit c \<noteq> None"
      using decimal_digits [of "n div 10"] by (auto simp: decDigit_def)
    have m: "n mod 10 < 10" by simp
    have e: "decimal n = decimal (n div 10) @ [48 + int (n mod 10)]"
      using False by (subst decimal.simps) simp
    from m have dd: "decDigit (48 + int (n mod 10)) = Some (n mod 10)" by (simp add: decDigit_def)
    show ?thesis
      unfolding e using False
      by (simp add: digitsFrom_snoc [OF d] 1 [OF False] dd algebra_simps)
  qed
qed

lemma parseInt_decimal: "parseInt (decimal n) = Some (int n)"
proof -
  obtain a r where ar: "decimal n = a # r"
    using decimal_nonempty [of n] by (cases "decimal n") auto
  from decimal_digits [of n] ar have a: "48 \<le> a \<and> a \<le> 57" and r: "\<forall>c\<in>set r. 48 \<le> c \<and> c \<le> 57" by auto
  from a have ws: "\<not> strWhiteSpaceChar a" by (auto simp: strWhiteSpaceChar_def)
  have v: "digitsFrom 10 decDigit None (a # r) = Some n"
    using digitsFrom_decimal [of None n] ar by simp
  show ?thesis
  proof (cases r)
    case Nil
    with ar a ws v show ?thesis by (simp add: parseInt_def Let_def)
  next
    case (Cons b r')
    with r have "b \<noteq> 120 \<and> b \<noteq> 88" by auto
    with ar a ws v Cons show ?thesis by (simp add: parseInt_def Let_def)
  qed
qed

lemma shiftCount_decimal: "shiftCount (decimal n # rest) = (n, rest)"
  by (simp add: shiftCount_def parseInt_decimal)

lemma setLine_entry:
  "59 \<notin> set k \<Longrightarrow> 59 \<notin> set v \<Longrightarrow> setLine (k @ 59 # v) d = mapSet k (Some v) d"
  by (simp add: setLine_def splitOn_line splitOn_none)


lemma shiftCount_Cons:
  "parseInt c = Some (int n) \<Longrightarrow> shiftCount (c # rest) = (n, rest)"
  by (simp add: shiftCount_def)

lemma applyLines_wellformed:
  assumes "parseInt c1 = Some (int (length added))"
      and "parseInt c2 = Some (int (length updated))"
      and "parseInt c3 = Some (int (length removed))"
  shows "applyLines (c1 # added @ c2 # updated @ c3 # removed @ rest) result =
     fold mapDelete removed (fold setLine updated (fold setLine added result))"
  using assms by (simp add: applyLines_def shiftCount_Cons Let_def)

lemma decimal_no_feed: "10 \<notin> set (decimal n)"
  using decimal_digits [of n] by auto

lemma fold_setLine_entries:
  "\<forall>kv\<in>set es. 59 \<notin> set (fst kv) \<and> 59 \<notin> set (snd kv) \<Longrightarrow>
   fold setLine (map (\<lambda>kv. fst kv @ [59] @ snd kv) es) d
     = fold (\<lambda>kv. mapSet (fst kv) (Some (snd kv))) es d"
  by (induction es arbitrary: d) (simp_all add: setLine_entry)

lemma concat_entryLine:
  "concat (map entryLine es) = concat (map (\<lambda>l. l @ [10]) (map (\<lambda>kv. fst kv @ [59] @ snd kv) es))"
  by (induction es) (simp_all add: entryLine_def)

lemma splitOn_written:
  assumes "lineSafe c"
  shows "splitOn 10 (writeChanges c) =
     decimal (length (sn_added c)) # map (\<lambda>kv. fst kv @ [59] @ snd kv) (sn_added c)
     @ decimal (length (sn_updated c)) # map (\<lambda>kv. fst kv @ [59] @ snd kv) (sn_updated c)
     @ decimal (length (sn_removed c)) # sn_removed c @ [[]]"
proof -
  let ?l = "\<lambda>kv :: jsString \<times> jsString. fst kv @ [59] @ snd kv"
  from assms have a: "\<forall>l\<in>set (map ?l (sn_added c)). 10 \<notin> set l"
    and u: "\<forall>l\<in>set (map ?l (sn_updated c)). 10 \<notin> set l"
    and r: "\<forall>l\<in>set (sn_removed c). 10 \<notin> set l"
    by (auto simp: lineSafe_def)
  have 3: "splitOn 10 (decimal (length (sn_removed c)) @ [10] @ concat (map (\<lambda>k. k @ [10]) (sn_removed c)))
      = decimal (length (sn_removed c)) # sn_removed c @ [[]]"
    using splitOn_lines [OF r, of "[]"] by (simp add: splitOn_line decimal_no_feed)
  have 2: "splitOn 10 (decimal (length (sn_updated c)) @ [10] @ concat (map entryLine (sn_updated c)) @ rest)
      = decimal (length (sn_updated c)) # map ?l (sn_updated c) @ splitOn 10 rest" for rest
    using splitOn_lines [OF u, of rest] by (simp add: splitOn_line decimal_no_feed concat_entryLine)
  have 1: "splitOn 10 (decimal (length (sn_added c)) @ [10] @ concat (map entryLine (sn_added c)) @ rest)
      = decimal (length (sn_added c)) # map ?l (sn_added c) @ splitOn 10 rest" for rest
    using splitOn_lines [OF a, of rest] by (simp add: splitOn_line decimal_no_feed concat_entryLine)
  show ?thesis unfolding writeChanges_def
    by (simp only: 1 2 3 append_assoc)
qed

lemma applyLines_written:
  assumes "lineSafe c"
  shows "applyLines (splitOn 10 (writeChanges c)) d
     = applyV6 \<lparr>v6_added = sn_added c, v6_updated = sn_updated c, v6_removed = sn_removed c\<rparr> d"
proof -
  let ?l = "\<lambda>kv :: jsString \<times> jsString. fst kv @ [59] @ snd kv"
  from assms have a: "\<forall>kv\<in>set (sn_added c). 59 \<notin> set (fst kv) \<and> 59 \<notin> set (snd kv)"
    and u: "\<forall>kv\<in>set (sn_updated c). 59 \<notin> set (fst kv) \<and> 59 \<notin> set (snd kv)"
    by (auto simp: lineSafe_def)
  have "applyLines (decimal (length (sn_added c)) # map ?l (sn_added c)
           @ decimal (length (sn_updated c)) # map ?l (sn_updated c)
           @ decimal (length (sn_removed c)) # sn_removed c @ [[]]) d
      = fold mapDelete (sn_removed c)
          (fold setLine (map ?l (sn_updated c)) (fold setLine (map ?l (sn_added c)) d))"
    by (rule applyLines_wellformed) (simp_all add: parseInt_decimal)
  then show ?thesis
    unfolding splitOn_written [OF assms]
    using fold_setLine_entries [OF a] fold_setLine_entries [OF u]
    by (simp add: applyV6_def)
qed

lemma applyFiles_written:
  "list_all2 (\<lambda>f c. loadText f = Inr (writeChanges c) \<and> lineSafe c) fs cs \<Longrightarrow>
   map_of (applyFiles loadText fs d)
     = fold (\<lambda>c. replay_spec (sn_added c) (sn_updated c) (sn_removed c)) cs (map_of d)"
proof (induction fs cs arbitrary: d rule: list_all2_induct)
  case Nil
  then show ?case by simp
next
  case (Cons f c fs cs)
  then show ?case by (simp add: applyLines_written applyV6_replay)
qed

lemma digestFrom_append:
  "\<forall>s\<in>set xs. date \<noteq> Some (bs_date s) \<Longrightarrow>
   digestFrom loadText parseV6 dmn date (xs @ ys) result =
     bindE (digestFrom loadText parseV6 dmn date xs result) (digestFrom loadText parseV6 dmn date ys)"
proof (induction xs arbitrary: result)
  case Nil
  then show ?case by (simp add: bindE_def)
next
  case (Cons s xs)
  then show ?case
    by (cases "applySnapshot loadText parseV6 dmn s result") (simp_all add: bindE_def)
qed


text \<open>
  \<open>parseInt\<close> on count lines: white space of any kind before the digits, a count that is
  not a number, a hexadecimal count.
\<close>

lemma parseInt_examples:
  "parseInt ([0xA0] @ utf16 ''12'') = Some 12
   \<and> parseInt ([0xFEFF, 0x2028, 0x20] @ utf16 ''7 items'') = Some 7
   \<and> parseInt (utf16 ''-3'') = Some (- 3)
   \<and> parseInt (utf16 ''0x1f'') = Some 31
   \<and> parseInt (utf16 ''abc'') = None
   \<and> parseInt [] = None
   \<and> parseInt ([0x85] @ utf16 ''1'') = None"
  by code_simp

text \<open>
  C8. \<open>loadDigest\<close> is a function of the snapshot sequence and of the files' contents,
  and it is a fold: the digest of a whole sequence, computed afresh, is the digest of a prefix
  continued with the remaining snapshots (no snapshot of the prefix being the one the stop
  date breaks at), an exception of a legacy snapshot being the exception of both. One
  snapshot replays its change records on the id-to-hash map as the specification says,
  added then updated entries inserted and removed ids deleted, in both formats: a legacy
  snapshot replays the record \<open>JSON.parse\<close> returns, and a line-oriented snapshot replays,
  file after file, the records \<open>writeChanges\<close> wrote.
\<close>

theorem loadDigest_replay:
  "((\<forall>s\<in>set xs. date \<noteq> Some (bs_date s)) \<longrightarrow>
      loadDigest loadText parseJSON (xs @ ys) dmn date =
        bindE (loadDigest loadText parseJSON xs dmn date) (digestFrom loadText parseJSON dmn date ys))
   \<and> (bs_domains s dmn = Some \<lparr>dd_snapshot = Some f, dd_snapshots = None\<rparr>
        \<and> loadText f = Inr content \<and> parseJSON content = Inr c \<longrightarrow>
      map_sum id map_of (digestFrom loadText parseJSON dmn date [s] result)
        = Inr (replay_spec (v6_added c) (v6_updated c) (v6_removed c) (map_of result)))
   \<and> (bs_domains s' dmn = Some \<lparr>dd_snapshot = None, dd_snapshots = Some fs\<rparr>
        \<and> list_all2 (\<lambda>f c. loadText f = Inr (writeChanges c) \<and> lineSafe c) fs cs \<longrightarrow>
      map_sum id map_of (digestFrom loadText parseJSON dmn date [s'] result')
        = Inr (fold (\<lambda>c. replay_spec (sn_added c) (sn_updated c) (sn_removed c)) cs (map_of result')))"
proof (intro conjI impI)
  assume "\<forall>s\<in>set xs. date \<noteq> Some (bs_date s)"
  then show "loadDigest loadText parseJSON (xs @ ys) dmn date =
        bindE (loadDigest loadText parseJSON xs dmn date) (digestFrom loadText parseJSON dmn date ys)"
    unfolding loadDigest_def by (rule digestFrom_append)
next
  assume "bs_domains s dmn = Some \<lparr>dd_snapshot = Some f, dd_snapshots = None\<rparr>
        \<and> loadText f = Inr content \<and> parseJSON content = Inr c"
  then show "map_sum id map_of (digestFrom loadText parseJSON dmn date [s] result)
        = Inr (replay_spec (v6_added c) (v6_updated c) (v6_removed c) (map_of result))"
    by (simp add: applySnapshot_def bindE_def applyV6_replay)
next
  assume a: "bs_domains s' dmn = Some \<lparr>dd_snapshot = None, dd_snapshots = Some fs\<rparr>
        \<and> list_all2 (\<lambda>f c. loadText f = Inr (writeChanges c) \<and> lineSafe c) fs cs"
  then have "map_of (applyFiles loadText fs result')
     = fold (\<lambda>c. replay_spec (sn_added c) (sn_updated c) (sn_removed c)) cs (map_of result')"
    by (intro applyFiles_written) simp
  with a show "map_sum id map_of (digestFrom loadText parseJSON dmn date [s'] result')
        = Inr (fold (\<lambda>c. replay_spec (sn_added c) (sn_updated c) (sn_removed c)) cs (map_of result'))"
    by (simp add: applySnapshot_def bindE_def)
qed

theorem loadDigest_replay_witness:
  "loadDigest exampleLoadText exampleParseV6 [snap1] ''task'' (Some 20)
     = Inr [(utf16 ''a'', Some (utf16 ''h1'')), (utf16 ''b'', Some (utf16 ''h2''))]
   \<and> digestFrom exampleLoadText exampleParseV6 ''task'' (Some 20) [snap2]
        [(utf16 ''a'', Some (utf16 ''h1'')), (utf16 ''b'', Some (utf16 ''h2''))]
     = Inr [(utf16 ''a'', Some (utf16 ''h4'')), (utf16 ''c'', Some (utf16 ''h3''))]
   \<and> loadDigest exampleLoadText exampleParseV6 ([snap1] @ [snap2]) ''task'' (Some 20)
     = Inr [(utf16 ''a'', Some (utf16 ''h4'')), (utf16 ''c'', Some (utf16 ''h3''))]
   \<and> map_sum id map_of (digestFrom exampleLoadText exampleParseV6 ''task'' (Some 20) [snap1] [])
     = Inr (replay_spec [(utf16 ''a'', utf16 ''h1''), (utf16 ''b'', utf16 ''h2'')] [] [] (map_of []))
   \<and> map_sum id map_of (digestFrom exampleLoadText exampleParseV6 ''task'' (Some 20) [snap2]
        [(utf16 ''a'', Some (utf16 ''h1'')), (utf16 ''b'', Some (utf16 ''h2''))])
     = Inr (replay_spec [(utf16 ''c'', utf16 ''h3'')] [(utf16 ''a'', utf16 ''h4'')] [utf16 ''b'']
              (map_of [(utf16 ''a'', Some (utf16 ''h1'')), (utf16 ''b'', Some (utf16 ''h2''))]))
   \<and> loadDigest exampleLoadText exampleParseV6 [snap1, snap3, snap2] ''task'' (Some 30)
     = Inr [(utf16 ''a'', Some (utf16 ''h4'')), (utf16 ''c'', Some (utf16 ''h3''))]"
proof -
  let ?d1 = "[(utf16 ''a'', Some (utf16 ''h1'')), (utf16 ''b'', Some (utf16 ''h2''))]"
  let ?c1 = "\<lparr>v6_added = [(utf16 ''a'', utf16 ''h1''), (utf16 ''b'', utf16 ''h2'')], v6_updated = [],
                 v6_removed = []\<rparr>"
  have h1: "\<forall>s\<in>set [snap1]. Some 20 \<noteq> Some (bs_date s)"
    by (simp add: snap1_def)
  have h2: "bs_domains snap1 ''task'' = Some \<lparr>dd_snapshot = Some ''task.json.gz'', dd_snapshots = None\<rparr>
      \<and> exampleLoadText ''task.json.gz'' = Inr (utf16 ''legacy'')
      \<and> exampleParseV6 (utf16 ''legacy'') = Inr ?c1"
    by (simp add: snap1_def exampleLoadText_def exampleParseV6_def)
  have w: "exampleLoadText ''task-1.snp.gz'' = Inr (writeChanges exampleChanges)"
    by code_simp
  have l: "lineSafe exampleChanges"
    by code_simp
  have h3: "bs_domains snap2 ''task'' = Some \<lparr>dd_snapshot = None, dd_snapshots = Some [''task-1.snp.gz'']\<rparr>
      \<and> list_all2 (\<lambda>f c. exampleLoadText f = Inr (writeChanges c) \<and> lineSafe c)
           [''task-1.snp.gz''] [exampleChanges]"
    using w l by (simp add: snap2_def)
  have a: "loadDigest exampleLoadText exampleParseV6 [snap1] ''task'' (Some 20) = Inr ?d1"
    by code_simp
  have b: "digestFrom exampleLoadText exampleParseV6 ''task'' (Some 20) [snap2] ?d1
     = Inr [(utf16 ''a'', Some (utf16 ''h4'')), (utf16 ''c'', Some (utf16 ''h3''))]"
    by code_simp
  have c: "loadDigest exampleLoadText exampleParseV6 [snap1, snap3, snap2] ''task'' (Some 30)
     = Inr [(utf16 ''a'', Some (utf16 ''h4'')), (utf16 ''c'', Some (utf16 ''h3''))]"
    by code_simp
  have e: "sn_added exampleChanges = [(utf16 ''c'', utf16 ''h3'')]
      \<and> sn_updated exampleChanges = [(utf16 ''a'', utf16 ''h4'')]
      \<and> sn_removed exampleChanges = [utf16 ''b'']"
    by (simp add: exampleChanges_def)
  note T = loadDigest_replay [where xs = "[snap1]" and date = "Some 20" and loadText = exampleLoadText
      and parseJSON = exampleParseV6 and ys = "[snap2]" and dmn = "''task''" and s = snap1
      and f = "''task.json.gz''" and content = "utf16 ''legacy''" and c = ?c1 and result = "[]"
      and s' = snap2 and fs = "[''task-1.snp.gz'']" and cs = "[exampleChanges]" and result' = ?d1]
  from T h1 have f1: "loadDigest exampleLoadText exampleParseV6 ([snap1] @ [snap2]) ''task'' (Some 20)
      = bindE (loadDigest exampleLoadText exampleParseV6 [snap1] ''task'' (Some 20))
          (digestFrom exampleLoadText exampleParseV6 ''task'' (Some 20) [snap2])"
    by blast
  from T h2 have f2: "map_sum id map_of (digestFrom exampleLoadText exampleParseV6 ''task'' (Some 20) [snap1] [])
      = Inr (replay_spec (v6_added ?c1) (v6_updated ?c1) (v6_removed ?c1) (map_of []))"
    by blast
  from T h3 have f3: "map_sum id map_of (digestFrom exampleLoadText exampleParseV6 ''task'' (Some 20) [snap2] ?d1)
      = Inr (fold (\<lambda>c. replay_spec (sn_added c) (sn_updated c) (sn_removed c)) [exampleChanges] (map_of ?d1))"
    by blast
  have c3: "loadDigest exampleLoadText exampleParseV6 ([snap1] @ [snap2]) ''task'' (Some 20)
     = Inr [(utf16 ''a'', Some (utf16 ''h4'')), (utf16 ''c'', Some (utf16 ''h3''))]"
    unfolding f1 a using b by (simp add: bindE_def del: digestFrom.simps)
  have c4: "map_sum id map_of (digestFrom exampleLoadText exampleParseV6 ''task'' (Some 20) [snap1] [])
     = Inr (replay_spec [(utf16 ''a'', utf16 ''h1''), (utf16 ''b'', utf16 ''h2'')] [] [] (map_of []))"
    using f2 by (simp del: digestFrom.simps)
  have c5: "map_sum id map_of (digestFrom exampleLoadText exampleParseV6 ''task'' (Some 20) [snap2] ?d1)
     = Inr (replay_spec [(utf16 ''c'', utf16 ''h3'')] [(utf16 ''a'', utf16 ''h4'')] [utf16 ''b''] (map_of ?d1))"
    using f3 e by (simp del: digestFrom.simps)
  show ?thesis using a b c3 c4 c5 c by - (intro conjI, assumption+)
qed

section \<open>Facts about the field-extraction stage\<close>



lemma docLoop_logged_prefix:
  "\<exists>more. cs_logged (docLoop env attributes objClass docs valueIds cache ds st) = cs_logged st @ more"
proof (induction ds arbitrary: st cache)
  case Nil
  then show ?case by simp
next
  case (Cons d ds)
  show ?case
  proof (cases "cancelling env (cs_pipeline st)")
    case True
    then show ?thesis by simp
  next
    case False
    let ?r = "tryBlock env attributes objClass docs (map_of valueIds (doc_id d)) d (cs_pipeline st, cache)"
    let ?next = "st\<lparr>cs_pipeline := fst (fst ?r), cs_processed := cs_processed st @ [doc_id d],
        cs_logged := cs_logged st @ (case snd ?r of None \<Rightarrow> [] | Some e \<Rightarrow> [e])\<rparr>"
    from Cons.IH [of "snd (fst ?r)" ?next] obtain more where
      "cs_logged (docLoop env attributes objClass docs valueIds (snd (fst ?r)) ds ?next) = cs_logged ?next @ more"
      by blast
    with False show ?thesis by (simp add: Let_def)
  qed
qed

lemma docLoop_logs_exception:
  assumes "\<not> cancelling env (cs_pipeline st)"
      and "snd (tryBlock env attributes objClass docs (map_of valueIds (doc_id d)) d (cs_pipeline st, cache)) = Some e"
  shows "\<exists>more. cs_logged (docLoop env attributes objClass docs valueIds cache (d # rest) st) = cs_logged st @ e # more"
proof -
  let ?r = "tryBlock env attributes objClass docs (map_of valueIds (doc_id d)) d (cs_pipeline st, cache)"
  let ?next = "st\<lparr>cs_pipeline := fst (fst ?r), cs_processed := cs_processed st @ [doc_id d],
      cs_logged := cs_logged st @ [e]\<rparr>"
  from docLoop_logged_prefix [of env attributes objClass docs valueIds "snd (fst ?r)" rest ?next]
  obtain more where
    "cs_logged (docLoop env attributes objClass docs valueIds (snd (fst ?r)) rest ?next) = cs_logged ?next @ more"
    by blast
  with assms show ?thesis by (simp add: Let_def)
qed

















section \<open>Facts about the apply-if scopes\<close>

lemma verifyApplyIf_cases:
  assumes "\<forall>c q l. \<exists>r. fa c q l = Inr r"
  shows "(scopes st scope \<noteq> None \<and> verifyApplyIf fa st scope match notMatch = (st, Blocks))
    \<or> (scopes st scope = None \<and> (\<exists>passed. verifyApplyIf fa st scope match notMatch =
          (installScope st scope, Returns (passed, scope, nextPromise st))))"
proof -
  have m: "\<exists>b. matchAll fa ms = Inr b" for ms
  proof (induction ms)
    case Nil then show ?case by auto
  next
    case (Cons m ms)
    from assms obtain r where "fa (fst m) (snd m) (Some 1) = Inr r" by blast
    with Cons show ?case by (auto simp: bindE_def)
  qed
  have n: "\<exists>b. noneMatch fa ms = Inr b" for ms
  proof (induction ms)
    case Nil then show ?case by auto
  next
    case (Cons m ms)
    from assms obtain r where "fa (fst m) (snd m) (Some 1) = Inr r" by blast
    with Cons show ?case by (auto simp: bindE_def)
  qed
  from m [of match] obtain b1 where b1: "matchAll fa match = Inr b1" by blast
  from n [of notMatch] obtain b2 where b2: "noneMatch fa notMatch = Inr b2" by blast
  show ?thesis
  proof (cases "scopes st scope")
    case None
    with b1 b2 show ?thesis by (auto simp: verifyApplyIf_def Let_def)
  next
    case (Some p)
    then show ?thesis by (simp add: verifyApplyIf_def)
  qed
qed


lemma fold_onEnd_scopes:
  "scopes (fold onEnd es st) s = (if s \<in> fst ` set es then None else scopes st s)"
  by (induction es arbitrary: st) (auto simp: onEnd_def)

lemma applyLoop_invariant:
  assumes fa: "\<forall>c q l. \<exists>r. fa c q l = Inr r"
  shows "applyLoop fuel h fd fa st acc = Some (st', acc', out) \<Longrightarrow>
     (\<forall>s. scopes st' s \<noteq> None \<longrightarrow> scopes st s \<noteq> None \<or> s \<in> fst ` set (onEnds acc'))
     \<and> set (onEnds acc) \<subseteq> set (onEnds acc')"
proof (induction fuel arbitrary: st acc)
  case 0
  then show ?case by simp
next
  case (Suc fuel)
  show ?case
  proof (cases "applyTxes (acc_buckets acc)")
    case Nil
    with Suc.prems show ?thesis by auto
  next
    case (Cons t pending)
    let ?acc0 = "acc\<lparr>acc_buckets := (acc_buckets acc)\<lparr>applyTxes := pending\<rparr>\<rparr>"
    show ?thesis
    proof (cases t)
      case (TxApplyIf ah scope match notMatch txes)
      from verifyApplyIf_cases [OF fa, of st scope match notMatch]
      show ?thesis
      proof
        assume "scopes st scope \<noteq> None \<and> verifyApplyIf fa st scope match notMatch = (st, Blocks)"
        with Suc.prems Cons TxApplyIf show ?thesis by (auto simp: Let_def)
      next
        assume a: "scopes st scope = None \<and> (\<exists>passed. verifyApplyIf fa st scope match notMatch =
          (installScope st scope, Returns (passed, scope, nextPromise st)))"
        let ?st1 = "installScope st scope"
        from a obtain passed where v: "verifyApplyIf fa st scope match notMatch =
          (?st1, Returns (passed, scope, nextPromise st))" by blast
        let ?acc1 = "?acc0\<lparr>onEnds := onEnds ?acc0 @ [(scope, nextPromise st)]\<rparr>"
        let ?accT = "?acc1\<lparr>acc_result := acc_result ?acc1 @ [ApplyIfResult True],
                               acc_buckets := fillTxes h fd txes (acc_buckets ?acc1),
                               acc_derived := txes\<rparr>"
        let ?accF = "?acc1\<lparr>acc_result := acc_result ?acc1 @ [ApplyIfResult False]\<rparr>"
        from Suc.prems Cons TxApplyIf v have
          rec: "applyLoop fuel h fd fa ?st1 (if passed then ?accT else ?accF) = Some (st', acc', out)"
          by (cases passed) (simp_all add: Let_def)
        from Suc.IH [OF rec] have
          1: "\<forall>s. scopes st' s \<noteq> None \<longrightarrow> scopes ?st1 s \<noteq> None \<or> s \<in> fst ` set (onEnds acc')" and
          2: "set (onEnds (if passed then ?accT else ?accF)) \<subseteq> set (onEnds acc')" by blast+
        from 2 have 3: "(scope, nextPromise st) \<in> set (onEnds acc')" and 4: "set (onEnds acc) \<subseteq> set (onEnds acc')"
          by (auto split: if_splits)
        have "\<forall>s. scopes st' s \<noteq> None \<longrightarrow> scopes st s \<noteq> None \<or> s \<in> fst ` set (onEnds acc')"
        proof (intro allI impI)
          fix s assume "scopes st' s \<noteq> None"
          with 1 have "scopes ?st1 s \<noteq> None \<or> s \<in> fst ` set (onEnds acc')" by blast
          then show "scopes st s \<noteq> None \<or> s \<in> fst ` set (onEnds acc')"
          proof
            assume "scopes ?st1 s \<noteq> None"
            then have "s = scope \<or> scopes st s \<noteq> None"
              by (auto simp: installScope_def split: if_splits)
            with 3 show ?thesis by force
          next
            assume "s \<in> fst ` set (onEnds acc')"
            then show ?thesis by simp
          qed
        qed
        with 4 show ?thesis by blast
      qed
    qed (use Suc.prems Cons in \<open>auto simp: Let_def\<close>)
  qed
qed

lemma processTxes_releases:
  assumes fa: "\<forall>c q l. \<exists>r. fa c q l = Inr r"
      and run: "processTxes fuel h fd fa rest st txes = Some (st', out)"
      and out: "out \<noteq> Blocks"
  shows "\<forall>s. scopes st s = None \<longrightarrow> scopes st' s = None"
proof -
  let ?acc = "\<lparr>acc_buckets = fillTxes h fd txes \<lparr>txToStore = [], modelTx = [], txToProcess = [], applyTxes = []\<rparr>,
      onEnds = [], acc_result = [], acc_derived = []\<rparr>"
  from run obtain st1 acc1 o1 where
    loop: "applyLoop fuel h fd fa st ?acc = Some (st1, acc1, o1)"
    by (auto simp: processTxes_def Let_def split: option.splits)
  from applyLoop_invariant [OF fa loop] have
    inv: "\<forall>s. scopes st1 s \<noteq> None \<longrightarrow> scopes st s \<noteq> None \<or> s \<in> fst ` set (onEnds acc1)" by blast
  let ?o2 = "case o1 of Returns u \<Rightarrow> rest acc1 | other \<Rightarrow> other"
  from run loop out have st': "st' = fold onEnd (onEnds acc1) st1"
    by (cases ?o2) (auto simp: processTxes_def Let_def)
  show ?thesis
  proof (intro allI impI)
    fix s assume "scopes st s = None"
    with inv have "scopes st1 s = None \<or> s \<in> fst ` set (onEnds acc1)" by blast
    then show "scopes st' s = None" unfolding st' by (auto simp: fold_onEnd_scopes)
  qed
qed

text \<open>
  C10. When no \<open>findAll\<close> of a predicate throws, every scope a call of \<open>processTxes\<close>
  installed is released when the call returns or throws (\<open>processTxes_releases\<close>). When
  a \<open>findAll\<close> throws inside \<open>verifyApplyIf\<close>, the scope is already in the map and the
  \<open>onEnd\<close> that would release it is never pushed to \<open>onEnds\<close>: \<open>processTxes\<close> throws,
  the scope stays in the map with a promise nobody resolves, and the next apply-if on that
  scope waits for ever.
\<close>

theorem processTxes_leaks_scope:
  "(case processTxes 5 exampleHierarchy exampleFindDomain exampleFindAll (\<lambda>acc. Returns ()) emptyScopes
          [applyIfMissing] of
      Some (st', Throws e) \<Rightarrow>
        e = Error ''domain not found: unknown:class:Missing''
        \<and> scopes st' ''issue-counter'' = Some 0
        \<and> resolved st' = []
        \<and> (case processTxes 5 exampleHierarchy exampleFindDomain exampleFindAll (\<lambda>acc. Returns ()) st'
                  [applyIfFine] of
              Some (st'', Blocks) \<Rightarrow> True
            | other \<Rightarrow> False)
    | other \<Rightarrow> False)"
  by code_simp

text \<open>
  C4. Three calls on the scope \<open>issue-counter\<close>: the first holds the scope, the second
  and the third each read its promise from the map and wait for it. When the first ends,
  both waiters are resumed in turn; neither reads the map again, the second installs its
  promise and starts evaluating, and the third overwrites the entry and starts evaluating
  as well: two evaluation-to-completion windows on one scope overlap. Calls on different
  scopes are in their windows together, as the claim says.
\<close>

theorem verifyApplyIf_windows_overlap:
  "runSchedule [0, 0, 1, 2, 0, 1, 2]
       (emptyScopes, [(''issue-counter'', Idle), (''issue-counter'', Idle), (''issue-counter'', Idle)])
     = Some (\<lparr>scopes = [''issue-counter'' \<mapsto> 2], resolved = [0], nextPromise = 3\<rparr>,
             [(''issue-counter'', Ended), (''issue-counter'', Evaluating 1), (''issue-counter'', Evaluating 2)])
   \<and> map_option snd (runSchedule [0, 0, 1, 1]
       (emptyScopes, [(''issue-counter'', Idle), (''other-scope'', Idle)]))
     = Some [(''issue-counter'', Evaluating 0), (''other-scope'', Evaluating 1)]"
  by (simp add: fire_def emptyScopes_def installScope_def onEnd_def fun_eq_iff)

end
